theory Spec2Isabelle
  imports Complex_Main "HOL-Library.Multiset" "HOL-Library.Char_ord" "HOL-Library.List_Lexorder"
begin

section \<open>OrcaDetector: the dataset pipeline of \<^verbatim>\<open>database_parser.py\<close>\<close>

text \<open>
  A shallow embedding of \<^verbatim>\<open>src/orca_detector/database_parser.py\<close>. Python exceptions
  are values of \<open>error\<close>; the file system is an explicit state.
\<close>

datatype error = ValueError | IndexError | ZeroDivisionError | OverflowError

subsection \<open>Paths and the file system\<close>

text \<open>
  \<^verbatim>\<open>os.path.join(a, b)\<close> of \<^verbatim>\<open>posixpath\<close>: an absolute \<open>b\<close> replaces \<open>a\<close>; otherwise
  the two are joined by one separator unless \<open>a\<close> is empty or already ends in one.
\<close>

definition os_path_join :: "string \<Rightarrow> string \<Rightarrow> string" where
  "os_path_join a b =
     (if b \<noteq> [] \<and> hd b = CHR ''/'' then b
      else if a = [] \<or> last a = CHR ''/'' then a @ b
      else a @ ''/'' @ b)"

text \<open>
  The file system maps a path to the contents of the regular file there. A feature file
  holds a pickled list; its contents are modelled by the value \<^verbatim>\<open>pickle.load\<close> gives back.
\<close>

type_synonym 'd filesystem = "string \<rightharpoonup> 'd"

definition os_path_exists :: "'d filesystem \<Rightarrow> string \<Rightarrow> bool" where
  "os_path_exists fs p = (fs p \<noteq> None)"

definition os_remove :: "'d filesystem \<Rightarrow> string \<Rightarrow> 'd filesystem" where
  "os_remove fs p = fs(p := None)"

text \<open>\<^verbatim>\<open>os.rename(src, dst)\<close> replaces an existing \<open>dst\<close>; renaming a file to itself does nothing.\<close>

definition os_rename :: "'d filesystem \<Rightarrow> string \<Rightarrow> string \<Rightarrow> 'd filesystem" where
  "os_rename fs src dst = (if src = dst then fs else (fs(dst := fs src))(src := None))"

definition open_wb_dump :: "'d filesystem \<Rightarrow> string \<Rightarrow> 'd \<Rightarrow> 'd filesystem" where
  "open_wb_dump fs p d = fs(p \<mapsto> d)"

text \<open>\<^verbatim>\<open>_backup_datafile(file_path, suffix='-old')\<close>\<close>

definition backup_datafile :: "'d filesystem \<Rightarrow> string \<Rightarrow> string \<Rightarrow> 'd filesystem" where
  "backup_datafile fs file_path suffix =
     (if os_path_exists fs file_path
      then os_rename fs file_path (file_path @ suffix)
      else fs)"

subsection \<open>Saving the features of one split\<close>

text \<open>
  Modelled from the spec: \<^verbatim>\<open>orca_params.DatasetType\<close> is not under \<^verbatim>\<open>src/\<close>. The spec names
  the three recognised split kinds TRAIN, VALIDATE and TEST, and says that saving fails for
  anything else. The argument of the source defaults to \<^verbatim>\<open>None\<close>, which is no split kind.
\<close>

datatype DatasetType = TRAIN | VALIDATE | TEST

fun name :: "DatasetType \<Rightarrow> string" where
  "name TRAIN = ''TRAIN''"
| "name VALIDATE = ''VALIDATE''"
| "name TEST = ''TEST''"

text \<open>
  The loop \<^verbatim>\<open>for index, segment in enumerate(dataset)\<close>: each segment is a pair of a label
  and a segment string; the first extraction that raises ends the loop with its error.
  \<open>extract\<close> stands for \<^verbatim>\<open>extract_segment_features\<close>.
\<close>

fun extract_all :: "(string \<Rightarrow> error + 'f) \<Rightarrow> (string \<times> string) list \<Rightarrow> error + (string \<times> 'f) list" where
  "extract_all extract [] = Inr []"
| "extract_all extract (segment # rest) =
     (case extract (snd segment) of
        Inl e \<Rightarrow> Inl e
      | Inr features \<Rightarrow>
          (case extract_all extract rest of
             Inl e \<Rightarrow> Inl e
           | Inr data \<Rightarrow> Inr ((fst segment, features) # data)))"

text \<open>
  \<^verbatim>\<open>_extract_and_save_features(dataset, data_path, dataset_type=None, backup=True)\<close>.
  The result is the exception raised, if any, and the file system left behind. The
  parameter \<open>backup\<close> of the source is never read.
\<close>

definition extract_and_save_features ::
  "(string \<Rightarrow> error + 'f) \<Rightarrow> (string \<times> string) list \<Rightarrow> string \<Rightarrow> DatasetType option \<Rightarrow>
     (string \<times> 'f) list filesystem \<Rightarrow> error option \<times> (string \<times> 'f) list filesystem" where
  "extract_and_save_features extract dataset data_path dataset_type fs =
     (case dataset_type of
        None \<Rightarrow> (Some ValueError, fs)
      | Some d \<Rightarrow>
          (let filename = os_path_join data_path (name d @ ''.features'');
               fs1 = (if os_path_exists fs filename then os_remove fs filename else fs)
           in case extract_all extract dataset of
                Inl e \<Rightarrow> (Some e, fs1)
              | Inr data \<Rightarrow>
                  (let fs2 = backup_datafile fs1 filename ''-old''
                   in (None, open_wb_dump fs2 filename data))))"

subsection \<open>Double precision numbers\<close>

text \<open>
  Python's \<^verbatim>\<open>float\<close> is the IEEE 754 binary64 format. The magnitude of a finite double is
  \<open>mant * 2 ^ expo\<close> with a mantissa below \<open>2 ^ 53\<close>; a sign, where one is needed, is
  carried beside it. Rounding is to nearest, ties to even. Results below the normal range
  are rounded here as if the exponent were unbounded; such a product is below 1 either
  way and truncates to 0. A magnitude of \<open>2 ^ 1024\<close> or more is an infinity.
\<close>

datatype double = Double (mant: nat) (expo: int)

text \<open>\<^verbatim>\<open>int.bit_length()\<close>\<close>

fun bit_length :: "nat \<Rightarrow> nat" where
  "bit_length n = (if n = 0 then 0 else Suc (bit_length (n div 2)))"

declare bit_length.simps [simp del]

text \<open>\<open>P / 2 ^ k\<close> rounded to the nearest integer, a tie to the even one.\<close>

definition round_half_even :: "nat \<Rightarrow> nat \<Rightarrow> nat" where
  "round_half_even P k =
     (let q = P div 2 ^ k; r = P mod 2 ^ k
      in if 2 * r < 2 ^ k then q
         else if 2 ^ k < 2 * r then q + 1
         else if even q then q else q + 1)"

text \<open>\<open>P * 2 ^ e\<close> rounded to 53 significant bits.\<close>

definition round53 :: "nat \<Rightarrow> int \<Rightarrow> double" where
  "round53 P e =
     (if bit_length P \<le> 53 then Double P e
      else (let k = bit_length P - 53 in Double (round_half_even P k) (e + int k)))"

definition float_of_nat :: "nat \<Rightarrow> double" where
  "float_of_nat n = round53 n 0"

definition float_mul :: "double \<Rightarrow> double \<Rightarrow> double" where
  "float_mul x y = round53 (mant x * mant y) (expo x + expo y)"

definition is_inf :: "double \<Rightarrow> bool" where
  "is_inf d = (mant d \<noteq> 0 \<and> 1024 < int (bit_length (mant d)) + expo d)"

text \<open>The number a double stands for.\<close>

definition double_val :: "double \<Rightarrow> rat" where
  "double_val d = of_nat (mant d) * 2 powi expo d"

text \<open>\<^verbatim>\<open>int(x)\<close> of a finite non-negative double.\<close>

definition py_int_of_float :: "double \<Rightarrow> nat" where
  "py_int_of_float d =
     (if 0 \<le> expo d then mant d * 2 ^ nat (expo d) else mant d div 2 ^ nat (- expo d))"

subsection \<open>Cutting a file into segments\<close>

text \<open>\<^verbatim>\<open>str\<close> of a Python integer, as \<^verbatim>\<open>'{}'.format\<close> renders it.\<close>

definition digit_char :: "nat \<Rightarrow> char" where
  "digit_char d = ''0123456789'' ! d"

fun str_nat :: "nat \<Rightarrow> string" where
  "str_nat n = (if n < 10 then [digit_char n] else str_nat (n div 10) @ [digit_char (n mod 10)])"

declare str_nat.simps [simp del]

definition str_int :: "int \<Rightarrow> string" where
  "str_int i = (if i < 0 then CHR ''-'' # str_nat (nat (- i)) else str_nat (nat i))"

text \<open>
  The segment length \<^verbatim>\<open>sample_len\<close> is a Python number: an \<^verbatim>\<open>int\<close>, or a \<^verbatim>\<open>float\<close>, which
  is a sign (\<open>True\<close> for minus) and a magnitude, or the \<^verbatim>\<open>float\<close> that is not a number.
\<close>

datatype py_number = PyInt int | PyFloat bool double | PyNaN

text \<open>
  \<^verbatim>\<open>x * n\<close> for a number \<open>x\<close> and an \<^verbatim>\<open>int\<close> \<open>n\<close>. Two integers are multiplied exactly. For a
  \<^verbatim>\<open>float\<close> \<open>x\<close> the integer is first converted to a double, which raises \<^verbatim>\<open>OverflowError\<close>
  when it is too large; the product is then rounded to a double. An infinity times zero
  is not a number.
\<close>

definition py_mul_int :: "py_number \<Rightarrow> int \<Rightarrow> error + py_number" where
  "py_mul_int x n =
     (case x of
        PyInt i \<Rightarrow> Inr (PyInt (i * n))
      | PyNaN \<Rightarrow> (if is_inf (float_of_nat (nat \<bar>n\<bar>)) then Inl OverflowError else Inr PyNaN)
      | PyFloat s d \<Rightarrow>
          (let y = float_of_nat (nat \<bar>n\<bar>)
           in if is_inf y then Inl OverflowError
              else if is_inf d then (if n = 0 then Inr PyNaN else Inr (PyFloat (s \<noteq> (n < 0)) d))
              else Inr (PyFloat (s \<noteq> (n < 0)) (float_mul d y))))"

text \<open>
  \<^verbatim>\<open>int(x)\<close> of a number: a \<^verbatim>\<open>float\<close> is truncated towards zero; an infinity raises
  \<^verbatim>\<open>OverflowError\<close> and not-a-number \<^verbatim>\<open>ValueError\<close>.
\<close>

definition py_int :: "py_number \<Rightarrow> error + int" where
  "py_int x =
     (case x of
        PyInt i \<Rightarrow> Inr i
      | PyNaN \<Rightarrow> Inl ValueError
      | PyFloat s d \<Rightarrow>
          (if is_inf d then Inl OverflowError
           else Inr (if s then - int (py_int_of_float d) else int (py_int_of_float d))))"

text \<open>The rational a finite number stands for.\<close>

definition number_val :: "py_number \<Rightarrow> rat option" where
  "number_val x =
     (case x of
        PyInt i \<Rightarrow> Some (of_int i)
      | PyNaN \<Rightarrow> None
      | PyFloat s d \<Rightarrow>
          (if is_inf d then None else Some (if s then - double_val d else double_val d)))"

text \<open>
  \<^verbatim>\<open>np.arange(0, stop, step)\<close> on integers: \<open>\<lceil>stop / step\<rceil>\<close> values \<open>0, step, 2 * step, \<dots>\<close>
  (none when that number is not positive); a zero step is an error. NumPy takes the
  ceiling of the quotient as a double; for \<open>stop\<close> below \<open>2 ^ 53\<close> that is the ceiling of the
  exact quotient, and the results about segments are stated for files of fewer than
  \<open>2 ^ 53\<close> frames.
\<close>

definition np_arange :: "int \<Rightarrow> int \<Rightarrow> error + int list" where
  "np_arange stop step =
     (if step = 0 then Inl ZeroDivisionError
      else Inr (map (\<lambda>i. int i * step) [0..<nat (- ((- stop) div step))]))"

text \<open>What \<^verbatim>\<open>sf.SoundFile(file)\<close> reads from the header of a sound file.\<close>

record wav_info =
  frames :: int
  samplerate :: int

text \<open>\<^verbatim>\<open>'{}:{}:{}'.format(file, int(start), min_frames)\<close>\<close>

definition segment_string :: "string \<Rightarrow> int \<Rightarrow> int \<Rightarrow> string" where
  "segment_string file start min_frames =
     file @ '':'' @ str_int start @ '':'' @ str_int min_frames"

text \<open>
  \<^verbatim>\<open>_quantize_sample(label, file, sample_len, max_len)\<close>. \<open>soundfile\<close> stands for
  \<^verbatim>\<open>sf.SoundFile\<close>, which may fail to open the file. \<^verbatim>\<open>min_frames\<close> is
  \<^verbatim>\<open>int(sample_len * wav_file.samplerate)\<close>, the truncated product, which is a rounded double
  product when \<^verbatim>\<open>sample_len\<close> is a \<^verbatim>\<open>float\<close>. A segment is the pair of the label and the
  segment string. \<^verbatim>\<open>del sample_list[-1]\<close> raises \<^verbatim>\<open>IndexError\<close> on an empty list. The
  parameter \<open>max_len\<close> is never read.
\<close>

definition quantize_sample ::
  "(string \<Rightarrow> error + wav_info) \<Rightarrow> string \<Rightarrow> string \<Rightarrow> py_number \<Rightarrow> py_number \<Rightarrow>
     error + (string \<times> string) list" where
  "quantize_sample soundfile label file sample_len max_len =
     (case soundfile file of
        Inl e \<Rightarrow> Inl e
      | Inr wav_file \<Rightarrow>
          (case py_mul_int sample_len (samplerate wav_file) of
             Inl e \<Rightarrow> Inl e
           | Inr product \<Rightarrow>
               (case py_int product of
                  Inl e \<Rightarrow> Inl e
                | Inr min_frames \<Rightarrow>
                    if frames wav_file > min_frames
                    then (case np_arange (frames wav_file) min_frames of
                            Inl e \<Rightarrow> Inl e
                          | Inr file_parts \<Rightarrow>
                              (let sample_list =
                                     map (\<lambda>start. (label, segment_string file start min_frames))
                                       file_parts
                               in if sample_list = [] then Inl IndexError
                                  else Inr (butlast sample_list)))
                    else Inr [])))"

text \<open>
  The segment length in frames in the words of the specification,
  \<open>segmentFrames = \<lfloor>segmentSeconds * sampleRate\<rfloor>\<close>, for a segment length in seconds
  that is a rational.
\<close>

definition spec_segment_frames :: "rat \<Rightarrow> int \<Rightarrow> int" where
  "spec_segment_frames segmentSeconds sampleRate = \<lfloor>segmentSeconds * of_int sampleRate\<rfloor>"

text \<open>
  The count of segments in the words of the specification: \<open>\<lfloor>D / S\<rfloor> - 1\<close> when
  \<open>\<lfloor>D / S\<rfloor> \<ge> 1\<close>, else \<open>0\<close>, for a file of \<open>D\<close> seconds and segments of \<open>S\<close> seconds.
\<close>

definition spec_segment_count :: "rat \<Rightarrow> rat \<Rightarrow> int" where
  "spec_segment_count D S = (if 1 \<le> \<lfloor>D / S\<rfloor> then \<lfloor>D / S\<rfloor> - 1 else 0)"

subsection \<open>The counts of the split\<close>

text \<open>
  The split sizes are \<^verbatim>\<open>int((len(files) + 1) * percentage)\<close>, for a list of \<open>len\<close> files: the
  integer is converted to a double, multiplied by a double, and the product, rounded to a
  double, is truncated. Percentages are non-negative, so no sign is carried. Converting an
  integer that is too large raises \<^verbatim>\<open>OverflowError\<close>, and so does \<^verbatim>\<open>int\<close> of an infinite
  product.
\<close>

definition num_files :: "nat \<Rightarrow> double \<Rightarrow> error + nat" where
  "num_files len percentage =
     (let x = float_of_nat (len + 1)
      in if is_inf x then Inl OverflowError
         else (let y = float_mul x percentage
               in if is_inf y then Inl OverflowError else Inr (py_int_of_float y)))"

text \<open>
  The defaults \<^verbatim>\<open>train_percentage=.70\<close> and \<^verbatim>\<open>validate_percentage=0.20\<close>: the doubles
  nearest to 0.7 and 0.2, \<^verbatim>\<open>0x1.6666666666666p-1\<close> and \<^verbatim>\<open>0x1.999999999999ap-3\<close>.
\<close>

definition train_percentage_default :: double where
  "train_percentage_default = Double 3152519739159347 (- 52)"

definition validate_percentage_default :: double where
  "validate_percentage_default = Double 3602879701896397 (- 54)"

subsection \<open>The stratified split\<close>

text \<open>
  \<^verbatim>\<open>random.shuffle(x)\<close> of the standard library:
  \<^verbatim>\<open>for i in reversed(range(1, len(x))): j = randbelow(i + 1); x[i], x[j] = x[j], x[i]\<close>.
  The generator of the \<^verbatim>\<open>random\<close> module is a state \<open>'g\<close> and \<open>randbelow\<close> a function
  that draws a number from it and gives the next state.
\<close>

fun shuffle_loop :: "('g \<Rightarrow> nat \<Rightarrow> nat \<times> 'g) \<Rightarrow> nat \<Rightarrow> 'g \<Rightarrow> 'a list \<Rightarrow> 'a list \<times> 'g" where
  "shuffle_loop randbelow 0 g x = (x, g)"
| "shuffle_loop randbelow (Suc i) g x =
     (case randbelow g (Suc i + 1) of
        (j, g') \<Rightarrow> shuffle_loop randbelow i g' (x[Suc i := x ! j, j := x ! Suc i]))"

definition shuffle :: "('g \<Rightarrow> nat \<Rightarrow> nat \<times> 'g) \<Rightarrow> 'g \<Rightarrow> 'a list \<Rightarrow> 'a list \<times> 'g" where
  "shuffle randbelow g x = shuffle_loop randbelow (length x - 1) g x"

text \<open>
  A dictionary keeps its keys in insertion order; \<^verbatim>\<open>d[key] = value\<close> replaces the value
  of a key already there and appends a new key otherwise.
\<close>

fun dict_set :: "('k \<times> 'v) list \<Rightarrow> 'k \<Rightarrow> 'v \<Rightarrow> ('k \<times> 'v) list" where
  "dict_set [] key v = [(key, v)]"
| "dict_set ((k, w) # d) key v = (if k = key then (k, v) # d else (k, w) # dict_set d key v)"

text \<open>The three dictionaries \<^verbatim>\<open>datasets[DatasetType.TRAIN]\<close>, \<^verbatim>\<open>[VALIDATE]\<close> and \<^verbatim>\<open>[TEST]\<close>.\<close>

record 'a datasets =
  train :: "(string \<times> 'a list) list"
  validate :: "(string \<times> 'a list) list"
  test :: "(string \<times> 'a list) list"

text \<open>
  The body of the loop \<^verbatim>\<open>for label, files in all_samples.items()\<close> in
  \<^verbatim>\<open>read_files_and_extract_features\<close>, and the loop. The slices \<^verbatim>\<open>files[:a]\<close>,
  \<^verbatim>\<open>files[a:a + b]\<close> and \<^verbatim>\<open>files[a + b:]\<close> with \<open>a, b \<ge> 0\<close> are \<open>take\<close> and \<open>drop\<close>.
\<close>

definition split_label ::
  "('g \<Rightarrow> nat \<Rightarrow> nat \<times> 'g) \<Rightarrow> double \<Rightarrow> double \<Rightarrow> string \<Rightarrow> 'a list \<Rightarrow>
     'a datasets \<times> 'g \<Rightarrow> error + ('a datasets \<times> 'g)" where
  "split_label randbelow train_percentage validate_percentage label files st =
     (case st of (ds, g) \<Rightarrow>
        if length files < 10 then Inr (ds, g)
        else (case shuffle randbelow g files of (files', g') \<Rightarrow>
          (case num_files (length files') train_percentage of
             Inl e \<Rightarrow> Inl e
           | Inr num_train_files \<Rightarrow>
               (case num_files (length files') validate_percentage of
                  Inl e \<Rightarrow> Inl e
                | Inr num_validate_files \<Rightarrow>
                    Inr (\<lparr>train = dict_set (train ds) label (take num_train_files files'),
                          validate = dict_set (validate ds) label
                            (take num_validate_files (drop num_train_files files')),
                          test = dict_set (test ds) label
                            (drop (num_train_files + num_validate_files) files')\<rparr>, g')))))"

fun split_samples ::
  "('g \<Rightarrow> nat \<Rightarrow> nat \<times> 'g) \<Rightarrow> double \<Rightarrow> double \<Rightarrow> (string \<times> 'a list) list \<Rightarrow>
     'a datasets \<times> 'g \<Rightarrow> error + ('a datasets \<times> 'g)" where
  "split_samples randbelow train_percentage validate_percentage [] st = Inr st"
| "split_samples randbelow train_percentage validate_percentage ((label, files) # all_samples) st =
     (case split_label randbelow train_percentage validate_percentage label files st of
        Inl e \<Rightarrow> Inl e
      | Inr st' \<Rightarrow> split_samples randbelow train_percentage validate_percentage all_samples st')"

definition empty_datasets :: "'a datasets" where
  "empty_datasets = \<lparr>train = [], validate = [], test = []\<rparr>"

text \<open>
  The two generators of the process. Line 28, \<^verbatim>\<open>np.random.seed(251)\<close>, seeds the global
  generator of numpy when the module is loaded. \<^verbatim>\<open>import random\<close> gives the generator of
  the standard library, which the interpreter seeds from the operating system; the state
  it starts in is the parameter \<open>os_seeded\<close>. \<^verbatim>\<open>random.shuffle\<close> draws from the second.
\<close>

record 'g process_state =
  np_random_seed :: nat
  random_state :: 'g

definition import_database_parser :: "'g \<Rightarrow> 'g process_state" where
  "import_database_parser os_seeded = \<lparr>np_random_seed = 251, random_state = os_seeded\<rparr>"

text \<open>The split loop of \<^verbatim>\<open>read_files_and_extract_features\<close>, run in a process.\<close>

definition split_stage ::
  "('g \<Rightarrow> nat \<Rightarrow> nat \<times> 'g) \<Rightarrow> double \<Rightarrow> double \<Rightarrow> (string \<times> 'a list) list \<Rightarrow>
     'g process_state \<Rightarrow> error + ('a datasets \<times> 'g process_state)" where
  "split_stage randbelow train_percentage validate_percentage all_samples st =
     (case split_samples randbelow train_percentage validate_percentage all_samples
             (empty_datasets, random_state st) of
        Inl e \<Rightarrow> Inl e
      | Inr (ds, g') \<Rightarrow> Inr (ds, st\<lparr>random_state := g'\<rparr>))"

subsection \<open>Label encoding\<close>

text \<open>
  Modelled from the spec: the label encoder (\<^verbatim>\<open>sklearn.preprocessing.LabelEncoder\<close>) is
  not under \<^verbatim>\<open>src/\<close>. The spec says that fitting gives a bijection from the distinct class
  strings to \<open>[0, numClasses)\<close> ordered by the lexicographic sort of the strings. So
  \<^verbatim>\<open>fit\<close> keeps the sorted distinct classes in \<^verbatim>\<open>classes_\<close> (here \<open>encoder_classes\<close>), and \<^verbatim>\<open>transform\<close> gives the
  position of each label in that array, found by binary search (\<^verbatim>\<open>np.searchsorted\<close>), and
  raises \<^verbatim>\<open>ValueError\<close> for a label that was not fitted. Strings are compared character by
  character, by code point.
\<close>

record LabelEncoder =
  encoder_classes :: "string list"

definition LabelEncoder_fit :: "string list \<Rightarrow> LabelEncoder" where
  "LabelEncoder_fit y = \<lparr>encoder_classes = sort (remdups y)\<rparr>"





text \<open>
  \<^verbatim>\<open>create_label_encoding(classes, data_path, save, run_timestamp)\<close>. What it writes when
  \<open>save\<close> is set: the pickled encoder, a table of ids and labels, and two links.

  Modelled from the spec: \<^verbatim>\<open>orca_utils.create_or_replace_symlink\<close> is not under \<^verbatim>\<open>src/\<close>.
  The spec says that the "latest" alias is updated to point at this run's artifact,
  replacing any prior alias target.
\<close>

datatype artifact = Pickle LabelEncoder | Csv "(nat \<times> string) list" | Symlink string

definition create_or_replace_symlink :: "artifact filesystem \<Rightarrow> string \<Rightarrow> string \<Rightarrow> artifact filesystem" where
  "create_or_replace_symlink fs target link = fs(link \<mapsto> Symlink target)"

definition create_label_encoding ::
  "string list \<Rightarrow> string \<Rightarrow> bool \<Rightarrow> string \<Rightarrow> artifact filesystem \<Rightarrow>
     LabelEncoder \<times> artifact filesystem" where
  "create_label_encoding classes data_path save run_timestamp fs =
     (let encoder = LabelEncoder_fit classes
      in if save
         then (let label_encoder_path =
                     os_path_join data_path (''label_encoder_'' @ run_timestamp @ ''.p'');
                   fs1 = open_wb_dump fs label_encoder_path (Pickle encoder);
                   fs2 = create_or_replace_symlink fs1 label_encoder_path
                           (os_path_join data_path ''label_encoder_latest.p'');
                   csv_path = os_path_join data_path (''label_encoder_'' @ run_timestamp @ ''.csv'');
                   fs3 = open_wb_dump fs2 csv_path (Csv (enumerate 0 (encoder_classes encoder)));
                   fs4 = create_or_replace_symlink fs3 csv_path
                           (os_path_join data_path ''label_encoder_latest.csv'')
               in (encoder, fs4))
         else (encoder, fs))"

subsection \<open>Indexing the recordings\<close>















subsection \<open>Extracting the features of a segment\<close>

text \<open>\<^verbatim>\<open>segment.split(':')\<close>\<close>

fun split_colon :: "string \<Rightarrow> string list" where
  "split_colon [] = [[]]"
| "split_colon (c # cs) =
     (if c = CHR '':'' then [] # split_colon cs
      else (case split_colon cs of
              [] \<Rightarrow> [[c]]
            | part # parts \<Rightarrow> (c # part) # parts))"

text \<open>
  \<^verbatim>\<open>int(s)\<close> of a string, over ASCII: white space around the number is dropped, a sign may
  come first, and the digits may be separated by single underscores. Anything else is a
  \<^verbatim>\<open>ValueError\<close>.
\<close>

definition is_space :: "char \<Rightarrow> bool" where
  "is_space c =
     (c \<in> set [CHR '' '', CHR 0x09, CHR 0x0A, CHR 0x0B, CHR 0x0C, CHR 0x0D])"

definition is_digit :: "char \<Rightarrow> bool" where
  "is_digit c = (c \<in> set ''0123456789'')"

definition digit_value :: "char \<Rightarrow> nat" where
  "digit_value c = length (takeWhile (\<lambda>d. d \<noteq> c) ''0123456789'')"

fun parse_digits :: "nat \<Rightarrow> bool \<Rightarrow> string \<Rightarrow> nat option" where
  "parse_digits acc after_digit [] = (if after_digit then Some acc else None)"
| "parse_digits acc after_digit (c # cs) =
     (if is_digit c then parse_digits (10 * acc + digit_value c) True cs
      else if c = CHR ''_'' \<and> after_digit then parse_digits acc False cs
      else None)"

definition strip :: "string \<Rightarrow> string" where
  "strip s = rev (dropWhile is_space (rev (dropWhile is_space s)))"

definition py_int_of_string :: "string \<Rightarrow> error + int" where
  "py_int_of_string s =
     (case strip s of
        [] \<Rightarrow> Inl ValueError
      | c # cs \<Rightarrow>
          (if c = CHR ''-''
           then (case parse_digits 0 False cs of None \<Rightarrow> Inl ValueError | Some n \<Rightarrow> Inr (- int n))
           else if c = CHR ''+''
           then (case parse_digits 0 False cs of None \<Rightarrow> Inl ValueError | Some n \<Rightarrow> Inr (int n))
           else (case parse_digits 0 False (c # cs) of None \<Rightarrow> Inl ValueError | Some n \<Rightarrow> Inr (int n))))"

text \<open>\<^verbatim>\<open>xs[i]\<close> on a list, for \<open>i \<ge> 0\<close>.\<close>

definition py_index :: "'x list \<Rightarrow> nat \<Rightarrow> error + 'x" where
  "py_index xs i = (if i < length xs then Inr (xs ! i) else Inl IndexError)"

text \<open>
  The collaborators of the extraction, which are not part of this module: the reader
  \<^verbatim>\<open>sf.read(path, start, frames)\<close>, which returns the samples and the sample rate or fails;
  \<^verbatim>\<open>len(data.shape)\<close>; the mean over the channels \<^verbatim>\<open>np.mean(data, axis=1)\<close>;
  \<^verbatim>\<open>resampy.resample\<close>; \<^verbatim>\<open>log_mel_spectrogram\<close> with the constants of \<^verbatim>\<open>mel_params\<close>, which
  gives a matrix with one row per time frame; and \<^verbatim>\<open>frame\<close>, which cuts the matrix into
  windows. A waveform is a value of \<open>'d\<close>, a spectrogram value one of \<open>'a\<close>.
\<close>

record ('d, 'a) collaborators =
  sf_read :: "string \<Rightarrow> int \<Rightarrow> int \<Rightarrow> error + ('d \<times> int)"
  ndim :: "'d \<Rightarrow> nat"
  np_mean_axis1 :: "'d \<Rightarrow> 'd"
  resample :: "'d \<Rightarrow> int \<Rightarrow> int \<Rightarrow> 'd"
  log_mel_spectrogram :: "'d \<Rightarrow> 'a list list"
  frame :: "'a list list \<Rightarrow> nat \<Rightarrow> nat \<Rightarrow> 'a list list list"

text \<open>
  The constants of \<^verbatim>\<open>mel_params\<close> that the module reads. \<open>example_window_length\<close> and
  \<open>example_hop_length\<close> are the two numbers the module computes from
  \<^verbatim>\<open>EXAMPLE_WINDOW_SECONDS\<close>, \<^verbatim>\<open>EXAMPLE_HOP_SECONDS\<close> and \<^verbatim>\<open>STFT_HOP_LENGTH_SECONDS\<close>.
\<close>

record mel_params =
  SAMPLE_RATE :: int
  NUM_FRAMES :: nat
  NUM_BANDS :: nat
  example_window_length :: nat
  example_hop_length :: nat

text \<open>\<^verbatim>\<open>_waveform_to_mel_spectrogram_segments(data, sample_rate)\<close>\<close>

definition waveform_to_mel_spectrogram_segments ::
  "('d, 'a) collaborators \<Rightarrow> mel_params \<Rightarrow> 'd \<Rightarrow> int \<Rightarrow> 'a list list list" where
  "waveform_to_mel_spectrogram_segments co mp data sample_rate =
     (let data1 = (if ndim co data > 1 then np_mean_axis1 co data else data);
          data2 = (if sample_rate \<noteq> SAMPLE_RATE mp
                   then resample co data1 sample_rate (SAMPLE_RATE mp) else data1);
          log_mel = log_mel_spectrogram co data2;
          log_mel_examples = frame co log_mel (example_window_length mp) (example_hop_length mp)
      in log_mel_examples)"

text \<open>
  Arrays are nested lists. \<^verbatim>\<open>np.expand_dims(spectrogram, 3)\<close> wraps every value in a list of
  its own. The assignment \<^verbatim>\<open>X[0, :, :, :] = spectrogram\<close> broadcasts an array of shape
  \<open>(k, f, b, 1)\<close> into one of shape \<open>(NUM_FRAMES, NUM_BANDS, 1)\<close>: a leading dimension is
  dropped when it is 1, and every other dimension has to be equal to its target or be 1,
  in which case the single entry is repeated; otherwise NumPy raises \<^verbatim>\<open>ValueError\<close>. In an
  array all rows have the same length, so the rule can be applied row by row.
\<close>

definition np_expand_dims_3 :: "'a list list list \<Rightarrow> 'a list list list list" where
  "np_expand_dims_3 spectrogram = map (map (map (\<lambda>v. [v]))) spectrogram"

definition broadcast_to :: "nat \<Rightarrow> 'r list \<Rightarrow> error + 'r list" where
  "broadcast_to n xs =
     (if length xs = n then Inr xs
      else if length xs = 1 then Inr (replicate n (hd xs))
      else Inl ValueError)"

fun collect :: "(error + 'r) list \<Rightarrow> error + 'r list" where
  "collect [] = Inr []"
| "collect (Inl e # rs) = Inl e"
| "collect (Inr r # rs) = (case collect rs of Inl e \<Rightarrow> Inl e | Inr xs \<Rightarrow> Inr (r # xs))"

definition assign_example ::
  "nat \<Rightarrow> nat \<Rightarrow> 'a list list list list \<Rightarrow> error + 'a list list list" where
  "assign_example num_frames num_bands spectrogram =
     (case spectrogram of
        [window] \<Rightarrow>
          (case broadcast_to num_frames window of
             Inl e \<Rightarrow> Inl e
           | Inr rows \<Rightarrow> collect (map (broadcast_to num_bands) rows))
      | _ \<Rightarrow> Inl ValueError)"

text \<open>
  The call \<^verbatim>\<open>sf.read(segment.split(':')[0], start=int(segment.split(':')[1]),
  frames=int(segment.split(':')[2]))\<close>, with its arguments evaluated from left to right.
\<close>

definition read_segment :: "('d, 'a) collaborators \<Rightarrow> string \<Rightarrow> error + ('d \<times> int)" where
  "read_segment co segment =
     (case py_index (split_colon segment) 0 of
        Inl e \<Rightarrow> Inl e
      | Inr path \<Rightarrow>
          (case py_index (split_colon segment) 1 of
             Inl e \<Rightarrow> Inl e
           | Inr start_string \<Rightarrow>
               (case py_int_of_string start_string of
                  Inl e \<Rightarrow> Inl e
                | Inr start \<Rightarrow>
                    (case py_index (split_colon segment) 2 of
                       Inl e \<Rightarrow> Inl e
                     | Inr frames_string \<Rightarrow>
                         (case py_int_of_string frames_string of
                            Inl e \<Rightarrow> Inl e
                          | Inr frame_count \<Rightarrow> sf_read co path start frame_count)))))"

text \<open>\<^verbatim>\<open>extract_segment_features(segment)\<close>; the result has the shape \<open>(1, NUM_FRAMES, NUM_BANDS, 1)\<close>.\<close>

definition extract_segment_features ::
  "('d, 'a::zero) collaborators \<Rightarrow> mel_params \<Rightarrow> string \<Rightarrow> error + 'a list list list list" where
  "extract_segment_features co mp segment =
     (let X = [replicate (NUM_FRAMES mp) (replicate (NUM_BANDS mp) [0])]
      in case read_segment co segment of
           Inl e \<Rightarrow> Inl e
         | Inr (data, sample_rate) \<Rightarrow>
             (let spectrogram =
                    np_expand_dims_3 (waveform_to_mel_spectrogram_segments co mp data sample_rate)
              in if length spectrogram > 0
                 then (case assign_example (NUM_FRAMES mp) (NUM_BANDS mp) spectrogram of
                         Inl e \<Rightarrow> Inl e
                       | Inr example \<Rightarrow> Inr (X[0 := example]))
                 else Inr X))"

text \<open>
  Modelled from the spec: \<^verbatim>\<open>mel_features.frame\<close> is not under \<^verbatim>\<open>src/\<close>. The spec says that
  it frames the spectrogram into windows of \<open>window_length\<close> rows taken every \<open>hop_length\<close>
  rows, and that an input too short for one window gives none.
\<close>

definition frame_windows :: "'r list \<Rightarrow> nat \<Rightarrow> nat \<Rightarrow> 'r list list" where
  "frame_windows data window_length hop_length =
     (if length data < window_length then []
      else map (\<lambda>i. take window_length (drop (i * hop_length) data))
             [0..<1 + (length data - window_length) div hop_length])"

section \<open>Saving twice\<close>

lemma extract_and_save_features_backup_untouched:
  assumes "extract_and_save_features extract dataset data_path (Some d) fs = (r, fs')"
  shows "fs' (os_path_join data_path (name d @ ''.features'') @ ''-old'')
           = fs (os_path_join data_path (name d @ ''.features'') @ ''-old'')"
  using assms
  by (auto simp: extract_and_save_features_def Let_def backup_datafile_def os_path_exists_def
      os_remove_def os_rename_def open_wb_dump_def split: sum.splits if_splits)

text \<open>
  C1. Saving twice to the same split should leave the first save's contents under
  \<^verbatim>\<open><SPLIT_NAME>.features-old\<close> and the second save's contents under
  \<^verbatim>\<open><SPLIT_NAME>.features\<close>. On an empty directory, saving one TRAIN example and then
  another one leaves the second in \<^verbatim>\<open>TRAIN.features\<close>, and no file
  \<^verbatim>\<open>TRAIN.features-old\<close> at all: the existing file is removed before the features are
  extracted, so the later backup finds nothing to rename.
\<close>

theorem save_twice_leaves_no_backup:
  "(let extract = (\<lambda>segment. Inr (length segment));
        (r1, fs1) = extract_and_save_features extract [(''Orca'', ''a.wav:0:32000'')] ''/data''
                      (Some TRAIN) Map.empty;
        (r2, fs2) = extract_and_save_features extract [(''Seal'', ''b.wav:32000:32000'')] ''/data''
                      (Some TRAIN) fs1
    in r1 = None \<and> r2 = None
       \<and> fs1 ''/data/TRAIN.features'' = Some [(''Orca'', 13)]
       \<and> fs2 ''/data/TRAIN.features'' = Some [(''Seal'', 17)]
       \<and> fs2 ''/data/TRAIN.features-old'' = None)"
  by (simp add: extract_and_save_features_def Let_def backup_datafile_def os_path_exists_def
      os_remove_def os_rename_def open_wb_dump_def os_path_join_def)

section \<open>Segments of one file\<close>

lemma ceil_div_minus_one:
  fixes F m :: int
  assumes "0 < m"
  shows "- ((- F) div m) - 1 = (F - 1) div m"
proof -
  define q where "q = (F - 1) div m"
  define r where "r = (F - 1) mod m"
  have r: "0 \<le> r" "r < m" using assms by (simp_all add: r_def)
  have F: "F - 1 = m * q + r" by (simp add: q_def r_def)
  have "- F = m * (- (q + 1)) + (m - 1 - r)" using F by (simp add: algebra_simps)
  moreover have "0 \<le> m - 1 - r" "m - 1 - r < m" using r by simp_all
  ultimately have "(- F) div m = - (q + 1)" by (rule int_div_pos_eq)
  then show ?thesis by (simp add: q_def)
qed

lemma np_arange_pos:
  assumes "0 < m"
  shows "np_arange F m = Inr (map (\<lambda>i. int i * m) [0..<nat ((F - 1) div m + 1)])"
proof -
  have "- ((- F) div m) = (F - 1) div m + 1"
    using ceil_div_minus_one [OF assms, of F] by simp
  with assms show ?thesis by (simp add: np_arange_def)
qed

lemma np_arange_neg:
  assumes "m < 0" "m < F"
  shows "\<exists>parts. np_arange F m = Inr parts \<and> length parts \<le> 1"
proof -
  have "(- F) div m = F div (- m)"
    using div_minus_minus [of F "- m"] by simp
  moreover have "- 1 \<le> F div (- m)"
  proof -
    have "m div (- m) \<le> F div (- m)"
      using assms by (intro zdiv_mono1) simp_all
    moreover have "m div (- m) = - 1"
      using assms by (intro int_div_pos_eq [where r = 0]) simp_all
    ultimately show ?thesis by simp
  qed
  ultimately have "- ((- F) div m) \<le> 1" by simp
  then show ?thesis using assms by (simp add: np_arange_def)
qed

lemma quantize_sample_pos_aux:
  assumes "soundfile file = Inr wav_file"
    and p_def: "py_mul_int sample_len (samplerate wav_file) = Inr product"
    and m_def: "py_int product = Inr m"
    and m: "0 < m" "m < frames wav_file"
  shows "quantize_sample soundfile label file sample_len max_len =
           Inr (map (\<lambda>i. (label, segment_string file (int i * m) m))
                  [0..<nat ((frames wav_file - 1) div m)])"
proof -
  define k where "k = nat ((frames wav_file - 1) div m)"
  have "0 < (frames wav_file - 1) div m"
    using m by (simp add: pos_imp_zdiv_pos_iff)
  then have k: "nat ((frames wav_file - 1) div m + 1) = Suc k"
    by (simp add: k_def)
  have parts: "np_arange (frames wav_file) m = Inr (map (\<lambda>i. int i * m) [0..<Suc k])"
    using np_arange_pos [OF m(1), of "frames wav_file"] k by simp
  have bl: "butlast (map (\<lambda>start. (label, segment_string file start m)) (map (\<lambda>i. int i * m) [0..<Suc k]))
          = map (\<lambda>i. (label, segment_string file (int i * m) m)) [0..<k]"
    by (simp add: butlast_append comp_def)
  have "quantize_sample soundfile label file sample_len max_len
          = Inr (butlast (map (\<lambda>start. (label, segment_string file start m)) (map (\<lambda>i. int i * m) [0..<Suc k])))"
    unfolding quantize_sample_def using assms(1) m
    by (simp add: Let_def p_def m_def parts del: upt_Suc map_map)
  with bl show ?thesis
    by (simp only: k_def)
qed

lemma quantize_sample_short:
  assumes "soundfile file = Inr wav_file"
    and "py_mul_int sample_len (samplerate wav_file) = Inr product"
    and "py_int product = Inr m"
    and "frames wav_file \<le> m"
  shows "quantize_sample soundfile label file sample_len max_len = Inr []"
  using assms by (simp add: quantize_sample_def Let_def)

lemma quantize_sample_nonpos:
  assumes "soundfile file = Inr wav_file"
    and "py_mul_int sample_len (samplerate wav_file) = Inr product"
    and m_def: "py_int product = Inr m"
    and "m \<le> 0"
    and "quantize_sample soundfile label file sample_len max_len = Inr refs"
  shows "refs = []"
proof -
  show ?thesis
  proof (cases "m < frames wav_file")
    case False
    then show ?thesis using assms by (simp add: quantize_sample_def Let_def)
  next
    case True
    show ?thesis
    proof (cases "m = 0")
      case True
      with \<open>m < frames wav_file\<close> assms show ?thesis
        by (simp add: quantize_sample_def Let_def np_arange_def)
    next
      case False
      then have "m < 0" using assms(4) by simp
      from np_arange_neg [OF this True] obtain parts
        where p: "np_arange (frames wav_file) m = Inr parts" "length parts \<le> 1" by blast
      then have "parts = [] \<or> (\<exists>x. parts = [x])"
        by (cases parts) auto
      with p True assms show ?thesis
        by (auto simp: quantize_sample_def Let_def split: if_splits)
    qed
  qed
qed


lemma div_pred_eq:
  fixes F m :: int
  assumes "0 < m"
  shows "(F - 1) div m = (if m dvd F then F div m - 1 else F div m)"
proof (cases "m dvd F")
  case True
  then obtain k where k: "F = m * k" by (auto simp: dvd_def)
  have "F - 1 = m * (k - 1) + (m - 1)" by (simp add: k algebra_simps)
  moreover have "0 \<le> m - 1" "m - 1 < m" using assms by simp_all
  ultimately have "(F - 1) div m = k - 1" by (rule int_div_pos_eq)
  with k assms True show ?thesis by simp
next
  case False
  define q where "q = F div m"
  define r where "r = F mod m"
  have "r \<noteq> 0" using False by (simp add: r_def dvd_eq_mod_eq_0)
  moreover have "0 \<le> r" "r < m" using assms by (simp_all add: r_def)
  ultimately have r: "0 \<le> r - 1" "r - 1 < m" by simp_all
  have "F = m * q + r" by (simp add: q_def r_def)
  then have "F - 1 = m * q + (r - 1)" by simp
  then have "(F - 1) div m = q" using r by (rule int_div_pos_eq)
  with False show ?thesis by (simp add: q_def)
qed


text \<open>Evaluating the product and its truncation on concrete numbers.\<close>

lemmas number_eval = py_mul_int_def py_int_def float_of_nat_def float_mul_def round53_def
  round_half_even_def is_inf_def py_int_of_float_def bit_length.simps Let_def

lemmas segment_eval = quantize_sample_def np_arange_def segment_string_def
  str_int_def str_nat.simps digit_char_def upt_rec

text \<open>
  A failure of the product or of its truncation is the failure of the whole call: with the
  double nearest to \<open>10 ^ 308\<close> as segment length and 16000 frames per second the product
  is an infinity and \<^verbatim>\<open>int\<close> raises \<^verbatim>\<open>OverflowError\<close>.
\<close>

lemma quantize_sample_error:
  assumes "soundfile file = Inr wav_file"
    and "py_mul_int sample_len (samplerate wav_file) = Inl e
       \<or> (\<exists>product. py_mul_int sample_len (samplerate wav_file) = Inr product
             \<and> py_int product = Inl e)"
  shows "quantize_sample soundfile label file sample_len max_len = Inl e"
  using assms by (auto simp: quantize_sample_def)

lemma quantize_sample_overflow_example:
  "quantize_sample (\<lambda>file. Inr \<lparr>frames = 80000, samplerate = 16000\<rparr>) ''Orca'' ''a.wav''
       (PyFloat False (Double 5010420900022432 971)) (PyFloat False (Double 10 0))
     = Inl OverflowError"
  by (simp add: number_eval quantize_sample_def)

text \<open>
  C2 as stated fails. A file of 80000 frames at 16000 frames per second lasts 5 seconds;
  with segments of 2 seconds the specification's count is \<open>\<lfloor>5 / 2\<rfloor> - 1 = 1\<close>, but the
  three offsets 0, 32000 and 64000 are generated and only the last is dropped, so two
  segments are returned. The segment length is the \<^verbatim>\<open>float\<close> \<open>2.0\<close>.
\<close>

theorem quantize_sample_count_counterexample:
  "quantize_sample (\<lambda>file. Inr \<lparr>frames = 80000, samplerate = 16000\<rparr>) ''Orca'' ''a.wav''
       (PyFloat False (Double 2 0)) (PyFloat False (Double 10 0))
     = Inr [(''Orca'', ''a.wav:0:32000''), (''Orca'', ''a.wav:32000:32000'')]
   \<and> number_val (PyFloat False (Double 2 0)) = Some 2
   \<and> spec_segment_count (80000 / 16000) 2 = 1"
proof -
  have "\<lfloor>(5::rat) / 2\<rfloor> = 2"
    by (simp add: floor_eq_iff)
  then have "spec_segment_count (80000 / 16000) 2 = 1"
    by (simp add: spec_segment_count_def)
  moreover have "number_val (PyFloat False (Double 2 0)) = Some 2"
    by (simp add: number_val_def double_val_def is_inf_def bit_length.simps)
  moreover have "quantize_sample (\<lambda>file. Inr \<lparr>frames = 80000, samplerate = 16000\<rparr>) ''Orca'' ''a.wav''
       (PyFloat False (Double 2 0)) (PyFloat False (Double 10 0))
     = Inr [(''Orca'', ''a.wav:0:32000''), (''Orca'', ''a.wav:32000:32000'')]"
    by (simp add: number_eval segment_eval)
  ultimately show ?thesis by simp
qed

text \<open>
  C2, amended, for files of fewer than \<open>2 ^ 53\<close> frames. Let
  \<open>min_frames = int(sample_len * samplerate)\<close> be the number the code computes: for a
  \<^verbatim>\<open>float\<close> segment length the product rounded to a double and then truncated. A file of
  at most \<open>min_frames\<close> frames gives the empty list; a longer file, for
  \<open>min_frames \<ge> 1\<close>, gives \<open>\<lceil>frames / min_frames\<rceil> - 1 = (frames - 1) div min_frames\<close>
  segments, which is \<open>frames div min_frames - 1\<close> when \<open>min_frames\<close> divides the number of
  frames and \<open>frames div min_frames\<close> otherwise. When the segment length \<open>S\<close> is a whole
  number of frames, \<open>S * samplerate = min_frames\<close>, then \<open>frames div min_frames\<close> is the
  \<open>\<lfloor>D / S\<rfloor>\<close> of the specification.
\<close>

theorem quantize_sample_count:
  assumes "soundfile file = Inr wav_file"
    and "frames wav_file < 2 ^ 53"
    and "py_mul_int sample_len (samplerate wav_file) = Inr product"
    and "py_int product = Inr min_frames"
  shows "(frames wav_file \<le> min_frames \<longrightarrow>
            quantize_sample soundfile label file sample_len max_len = Inr [])
       \<and> (0 < min_frames \<and> min_frames < frames wav_file \<longrightarrow>
            (\<exists>refs. quantize_sample soundfile label file sample_len max_len = Inr refs
               \<and> int (length refs) = (frames wav_file - 1) div min_frames
               \<and> int (length refs) =
                   (if min_frames dvd frames wav_file then frames wav_file div min_frames - 1
                    else frames wav_file div min_frames)))
       \<and> (0 < min_frames \<and> number_val sample_len = Some S
            \<and> S * of_int (samplerate wav_file) = of_int min_frames \<longrightarrow>
            \<lfloor>(of_int (frames wav_file) / of_int (samplerate wav_file)) / S\<rfloor>
              = frames wav_file div min_frames)"
proof (intro conjI impI)
  assume "frames wav_file \<le> min_frames"
  then show "quantize_sample soundfile label file sample_len max_len = Inr []"
    by (rule quantize_sample_short [of soundfile "file", OF assms(1,3,4)])
next
  assume m: "0 < min_frames \<and> min_frames < frames wav_file"
  then have "0 < (frames wav_file - 1) div min_frames"
    by (simp add: pos_imp_zdiv_pos_iff)
  then have "int (nat ((frames wav_file - 1) div min_frames)) = (frames wav_file - 1) div min_frames"
    by simp
  moreover have "quantize_sample soundfile label file sample_len max_len =
      Inr (map (\<lambda>i. (label, segment_string file (int i * min_frames) min_frames))
             [0..<nat ((frames wav_file - 1) div min_frames)])"
    using m by (intro quantize_sample_pos_aux [of soundfile "file", OF assms(1,3,4)]) simp_all
  ultimately show "\<exists>refs. quantize_sample soundfile label file sample_len max_len = Inr refs
               \<and> int (length refs) = (frames wav_file - 1) div min_frames
               \<and> int (length refs) =
                   (if min_frames dvd frames wav_file then frames wav_file div min_frames - 1
                    else frames wav_file div min_frames)"
    using div_pred_eq [of min_frames "frames wav_file"] m by simp
next
  assume a: "0 < min_frames \<and> number_val sample_len = Some S
    \<and> S * of_int (samplerate wav_file) = of_int min_frames"
  have "(of_int (frames wav_file) / of_int (samplerate wav_file)) / S
          = (of_int (frames wav_file) :: rat) / (S * of_int (samplerate wav_file))"
    by (simp add: mult.commute)
  also have "\<dots> = of_int (frames wav_file) / of_int min_frames"
    using a by (simp only:)
  finally have "(of_int (frames wav_file) / of_int (samplerate wav_file)) / S
          = (of_int (frames wav_file) :: rat) / of_int min_frames" .
  then show "\<lfloor>(of_int (frames wav_file) / of_int (samplerate wav_file)) / S\<rfloor>
              = frames wav_file div min_frames"
    by (simp only: floor_divide_of_int_eq)
qed

theorem quantize_sample_count_witness:
  "(\<exists>refs. quantize_sample (\<lambda>file. Inr \<lparr>frames = 80000, samplerate = 16000\<rparr>) ''Orca'' ''a.wav''
             (PyFloat False (Double 2 0)) (PyFloat False (Double 10 0)) = Inr refs
           \<and> int (length refs) = 2)
   \<and> quantize_sample (\<lambda>file. Inr \<lparr>frames = 32000, samplerate = 16000\<rparr>) ''Orca'' ''a.wav''
             (PyFloat False (Double 2 0)) (PyFloat False (Double 10 0)) = Inr []
   \<and> \<lfloor>((80000 :: rat) / 16000) / 2\<rfloor> = 2
   \<and> (\<exists>refs. quantize_sample (\<lambda>file. Inr \<lparr>frames = 14400, samplerate = 16000\<rparr>) ''Orca'' ''a.wav''
             (PyFloat False (Double 5404319552844595 (- 54))) (PyFloat False (Double 10 0)) = Inr refs
           \<and> int (length refs) = 2)"
proof -
  have p2: "py_mul_int (PyFloat False (Double 2 0)) 16000 = Inr (PyFloat False (Double 32000 0))"
    by (simp add: number_eval)
  have i2: "py_int (PyFloat False (Double 32000 0)) = Inr 32000"
    by (simp add: number_eval)
  have v2: "number_val (PyFloat False (Double 2 0)) = Some 2"
    by (simp add: number_val_def double_val_def is_inf_def bit_length.simps)
  have p3: "py_mul_int (PyFloat False (Double 5404319552844595 (- 54))) 16000
      = Inr (PyFloat False (Double 5277655813324800 (- 40)))"
    by (simp add: number_eval)
  have i3: "py_int (PyFloat False (Double 5277655813324800 (- 40))) = Inr 4800"
    by (simp add: number_eval)
  show ?thesis
    using quantize_sample_count [of "\<lambda>file. Inr \<lparr>frames = 80000, samplerate = 16000\<rparr>" "''a.wav''"
        "\<lparr>frames = 80000, samplerate = 16000\<rparr>" "PyFloat False (Double 2 0)"
        "PyFloat False (Double 32000 0)" 32000 "''Orca''" "PyFloat False (Double 10 0)" 2]
      quantize_sample_count [of "\<lambda>file. Inr \<lparr>frames = 32000, samplerate = 16000\<rparr>" "''a.wav''"
        "\<lparr>frames = 32000, samplerate = 16000\<rparr>" "PyFloat False (Double 2 0)"
        "PyFloat False (Double 32000 0)" 32000 "''Orca''" "PyFloat False (Double 10 0)" 2]
      quantize_sample_count [of "\<lambda>file. Inr \<lparr>frames = 14400, samplerate = 16000\<rparr>" "''a.wav''"
        "\<lparr>frames = 14400, samplerate = 16000\<rparr>" "PyFloat False (Double 5404319552844595 (- 54))"
        "PyFloat False (Double 5277655813324800 (- 40))" 4800 "''Orca''" "PyFloat False (Double 10 0)" 0]
    by (simp add: p2 i2 v2 p3 i3)
qed

text \<open>
  C8 as stated fails for the frame count. The specification's \<open>segmentFrames\<close> is
  \<open>\<lfloor>segmentSeconds * sampleRate\<rfloor>\<close>; the code writes the truncated double precision
  product. With the double nearest to 0.3 as segment length and 16000 frames per second
  the segments have 4800 frames, where the exact product of that double and 16000 has
  floor 4799. With the double nearest to 1.001 and 8000 frames per second they have 8007
  frames, where \<open>\<lfloor>1.001 * 8000\<rfloor> = 8008\<close>. (A double in \<open>[1/4, 1/2)\<close> is a multiple of
  \<open>2 ^ - 54\<close>, one in \<open>[1, 2)\<close> a multiple of \<open>2 ^ - 52\<close>; the nearest one is within half of
  that.)
\<close>

theorem quantize_sample_segments_counterexample:
  "quantize_sample (\<lambda>file. Inr \<lparr>frames = 14400, samplerate = 16000\<rparr>) ''Orca'' ''a.wav''
       (PyFloat False (Double 5404319552844595 (- 54))) (PyFloat False (Double 10 0))
     = Inr [(''Orca'', ''a.wav:0:4800''), (''Orca'', ''a.wav:4800:4800'')]
   \<and> \<bar>double_val (Double 5404319552844595 (- 54)) - 3 / 10\<bar> \<le> 1 / 2 ^ 55
   \<and> spec_segment_frames (double_val (Double 5404319552844595 (- 54))) 16000 = 4799
   \<and> quantize_sample (\<lambda>file. Inr \<lparr>frames = 20000, samplerate = 8000\<rparr>) ''Orca'' ''a.wav''
       (PyFloat False (Double 4508103226997866 (- 52))) (PyFloat False (Double 10 0))
     = Inr [(''Orca'', ''a.wav:0:8007''), (''Orca'', ''a.wav:8007:8007'')]
   \<and> \<bar>double_val (Double 4508103226997866 (- 52)) - 1001 / 1000\<bar> \<le> 1 / 2 ^ 53
   \<and> spec_segment_frames (1001 / 1000) 8000 = 8008"
proof -
  have q1: "quantize_sample (\<lambda>file. Inr \<lparr>frames = 14400, samplerate = 16000\<rparr>) ''Orca'' ''a.wav''
       (PyFloat False (Double 5404319552844595 (- 54))) (PyFloat False (Double 10 0))
     = Inr [(''Orca'', ''a.wav:0:4800''), (''Orca'', ''a.wav:4800:4800'')]"
    by (simp add: number_eval segment_eval)
  have q2: "quantize_sample (\<lambda>file. Inr \<lparr>frames = 20000, samplerate = 8000\<rparr>) ''Orca'' ''a.wav''
       (PyFloat False (Double 4508103226997866 (- 52))) (PyFloat False (Double 10 0))
     = Inr [(''Orca'', ''a.wav:0:8007''), (''Orca'', ''a.wav:8007:8007'')]"
    by (simp add: number_eval segment_eval)
  have n1: "\<bar>double_val (Double 5404319552844595 (- 54)) - 3 / 10\<bar> \<le> 1 / 2 ^ 55"
    by (simp add: double_val_def power_int_minus)
  have n2: "\<bar>double_val (Double 4508103226997866 (- 52)) - 1001 / 1000\<bar> \<le> 1 / 2 ^ 53"
    by (simp add: double_val_def power_int_minus)
  have f1: "spec_segment_frames (double_val (Double 5404319552844595 (- 54))) 16000 = 4799"
    by (simp add: spec_segment_frames_def double_val_def power_int_minus floor_eq_iff)
  have f2: "spec_segment_frames (1001 / 1000) 8000 = 8008"
    by (simp add: spec_segment_frames_def)
  show ?thesis
    by (simp only: q1 q2 n1 n2 f1 f2)
qed

text \<open>
  C8, amended, for files of fewer than \<open>2 ^ 53\<close> frames. Let
  \<open>min_frames = int(sample_len * samplerate)\<close> be the number the code computes, the
  truncated double precision product for a \<^verbatim>\<open>float\<close> segment length. Every segment
  returned for a file lies inside the file (\<open>start + min_frames \<le> frames\<close>), has
  the frame count \<open>min_frames\<close>, which is positive, starts at a multiple of \<open>min_frames\<close>
  (the \<open>i\<close>-th one at \<open>i * min_frames\<close>), and ends before the next one starts, so no two of
  them overlap. The start and the count are the two numbers written into the segment
  string.
\<close>

theorem quantize_sample_segments:
  assumes "soundfile file = Inr wav_file"
    and "frames wav_file < 2 ^ 53"
    and "py_mul_int sample_len (samplerate wav_file) = Inr product"
    and "py_int product = Inr min_frames"
    and "quantize_sample soundfile label file sample_len max_len = Inr refs"
    and "i < length refs"
  shows "refs ! i = (label, segment_string file (int i * min_frames) min_frames)
       \<and> 0 < min_frames
       \<and> min_frames dvd int i * min_frames
       \<and> 0 \<le> int i * min_frames
       \<and> int i * min_frames + min_frames \<le> frames wav_file
       \<and> (\<forall>j<length refs. i < j \<longrightarrow> int i * min_frames + min_frames \<le> int j * min_frames)
       \<and> (\<forall>j<length refs. j < i \<longrightarrow> int j * min_frames + min_frames \<le> int i * min_frames)"
proof -
  have ne: "refs \<noteq> []" using assms(6) by auto
  have pos: "0 < min_frames"
  proof (rule ccontr)
    assume "\<not> 0 < min_frames"
    then have "min_frames \<le> 0" by simp
    then have "refs = []"
      by (rule quantize_sample_nonpos [of soundfile "file", OF assms(1,3,4) _ assms(5)])
    with ne show False by simp
  qed
  have long: "min_frames < frames wav_file"
  proof (rule ccontr)
    assume "\<not> min_frames < frames wav_file"
    then have "frames wav_file \<le> min_frames" by simp
    then have "quantize_sample soundfile label file sample_len max_len = Inr []"
      by (rule quantize_sample_short [of soundfile "file", OF assms(1,3,4)])
    with assms(5) ne show False by simp
  qed
  define k where "k = nat ((frames wav_file - 1) div min_frames)"
  have refs: "refs = map (\<lambda>i. (label, segment_string file (int i * min_frames) min_frames)) [0..<k]"
    using quantize_sample_pos_aux [of soundfile "file", OF assms(1,3,4) pos long, of label max_len] assms(5)
    by (simp add: k_def)
  then have ik: "i < k" using assms(6) by simp
  then have "int i + 1 \<le> (frames wav_file - 1) div min_frames"
    by (simp add: k_def)
  then have "(int i + 1) * min_frames \<le> ((frames wav_file - 1) div min_frames) * min_frames"
    using pos by (simp add: mult_right_mono)
  also have "\<dots> \<le> frames wav_file - 1"
  proof -
    have "((frames wav_file - 1) div min_frames) * min_frames + (frames wav_file - 1) mod min_frames
            = frames wav_file - 1"
      by simp
    moreover have "0 \<le> (frames wav_file - 1) mod min_frames"
      using pos by simp
    ultimately show ?thesis by linarith
  qed
  finally have fits: "int i * min_frames + min_frames \<le> frames wav_file"
    by (simp add: algebra_simps)
  have nth: "refs ! i = (label, segment_string file (int i * min_frames) min_frames)"
    using ik by (simp add: refs)
  have later: "int a * min_frames + min_frames \<le> int b * min_frames" if "a < b" for a b :: nat
  proof -
    have "int a + 1 \<le> int b" using that by simp
    then have "(int a + 1) * min_frames \<le> int b * min_frames"
      using pos by (simp add: mult_right_mono)
    then show ?thesis by (simp add: algebra_simps)
  qed
  show ?thesis
    using nth pos fits later by simp
qed

theorem quantize_sample_segments_witness:
  "quantize_sample (\<lambda>file. Inr \<lparr>frames = 14400, samplerate = 16000\<rparr>) ''Orca'' ''a.wav''
       (PyFloat False (Double 5404319552844595 (- 54))) (PyFloat False (Double 10 0))
     = Inr [(''Orca'', ''a.wav:0:4800''), (''Orca'', ''a.wav:4800:4800'')]
   \<and> segment_string ''a.wav'' (int 1 * 4800) 4800 = ''a.wav:4800:4800''
   \<and> int 1 * 4800 + 4800 \<le> (14400 :: int)"
proof -
  have q: "quantize_sample (\<lambda>file. Inr \<lparr>frames = 14400, samplerate = 16000\<rparr>) ''Orca'' ''a.wav''
       (PyFloat False (Double 5404319552844595 (- 54))) (PyFloat False (Double 10 0))
     = Inr [(''Orca'', ''a.wav:0:4800''), (''Orca'', ''a.wav:4800:4800'')]"
    by (simp add: number_eval segment_eval)
  have p: "py_mul_int (PyFloat False (Double 5404319552844595 (- 54)))
        (samplerate \<lparr>frames = 14400, samplerate = 16000\<rparr>)
      = Inr (PyFloat False (Double 5277655813324800 (- 40)))"
    by (simp add: number_eval)
  have m: "py_int (PyFloat False (Double 5277655813324800 (- 40))) = Inr 4800"
    by (simp add: number_eval)
  have "[(''Orca'', ''a.wav:0:4800''), (''Orca'', ''a.wav:4800:4800'')] ! 1
          = (''Orca'', segment_string ''a.wav'' (int 1 * 4800) 4800)
        \<and> int 1 * 4800 + 4800 \<le> frames \<lparr>frames = 14400, samplerate = 16000\<rparr>"
    using quantize_sample_segments [OF _ _ p m q, of 1] by simp
  with q show ?thesis by simp
qed
section \<open>The stratified split\<close>

lemma length_shuffle_loop:
  "length (fst (shuffle_loop randbelow i g x)) = length x"
  by (induction i arbitrary: g x) (auto split: prod.splits)

lemma length_shuffle: "length (fst (shuffle randbelow g x)) = length x"
  by (simp add: shuffle_def length_shuffle_loop)

lemma mset_shuffle_loop:
  assumes rb: "\<And>g n. 0 < n \<Longrightarrow> fst (randbelow g n) < n"
  shows "i < length x \<Longrightarrow> mset (fst (shuffle_loop randbelow i g x)) = mset x"
proof (induction i arbitrary: g x)
  case 0
  then show ?case by simp
next
  case (Suc i)
  obtain j g' where d: "randbelow g (Suc i + 1) = (j, g')" by (cases "randbelow g (Suc i + 1)")
  have "fst (randbelow g (Suc i + 1)) < Suc i + 1" by (rule rb) simp
  with d Suc.prems have j: "j < length x" by simp
  have "mset (fst (shuffle_loop randbelow i g' (x[Suc i := x ! j, j := x ! Suc i])))
          = mset (x[Suc i := x ! j, j := x ! Suc i])"
    using Suc.prems by (intro Suc.IH) simp
  also have "\<dots> = mset x"
    using j Suc.prems by (rule mset_swap)
  finally show ?case using d by simp
qed

lemma mset_shuffle:
  assumes "\<And>g n. 0 < n \<Longrightarrow> fst (randbelow g n) < n"
  shows "mset (fst (shuffle randbelow g x)) = mset x"
proof (cases "x = []")
  case True
  then show ?thesis by (simp add: shuffle_def)
next
  case False
  then have "length x - 1 < length x" by simp
  then show ?thesis
    using mset_shuffle_loop [of randbelow "length x - 1" x g] assms
    by (simp add: shuffle_def)
qed

lemma map_of_dict_set: "map_of (dict_set d key v) = (map_of d)(key \<mapsto> v)"
  by (induction d key v rule: dict_set.induct) (auto simp: fun_eq_iff)

lemma split_label_skip:
  assumes "length files < 10"
  shows "split_label randbelow tp vp label files st = Inr st"
  using assms by (cases st) (simp add: split_label_def)

lemma split_label_other:
  assumes "split_label randbelow tp vp label files (ds0, g0) = Inr (ds, g)"
    and "key \<noteq> label"
  shows "map_of (train ds) key = map_of (train ds0) key
       \<and> map_of (validate ds) key = map_of (validate ds0) key
       \<and> map_of (test ds) key = map_of (test ds0) key"
  using assms
  by (auto simp: split_label_def map_of_dict_set split: if_splits prod.splits sum.splits)

lemma split_label_this:
  assumes "split_label randbelow tp vp label files (ds0, g0) = Inr (ds, g)"
    and "10 \<le> length files"
  shows "\<exists>a b. num_files (length files) tp = Inr a \<and> num_files (length files) vp = Inr b
       \<and> map_of (train ds) label = Some (take a (fst (shuffle randbelow g0 files)))
       \<and> map_of (validate ds) label = Some (take b (drop a (fst (shuffle randbelow g0 files))))
       \<and> map_of (test ds) label = Some (drop (a + b) (fst (shuffle randbelow g0 files)))"
proof -
  obtain files' g1 where s: "shuffle randbelow g0 files = (files', g1)"
    by (cases "shuffle randbelow g0 files")
  then have len: "length files' = length files"
    using length_shuffle [of randbelow g0 files] by simp
  show ?thesis
    using assms s len
    by (auto simp: split_label_def map_of_dict_set split: sum.splits)
qed

lemma split_samples_other:
  assumes "split_samples randbelow tp vp all_samples (ds0, g0) = Inr (ds, g)"
    and "\<And>files. (key, files) \<in> set all_samples \<Longrightarrow> length files < 10"
  shows "map_of (train ds) key = map_of (train ds0) key
       \<and> map_of (validate ds) key = map_of (validate ds0) key
       \<and> map_of (test ds) key = map_of (test ds0) key"
  using assms
proof (induction all_samples arbitrary: ds0 g0)
  case Nil
  then show ?case by simp
next
  case (Cons p all_samples)
  obtain label files where p: "p = (label, files)" by (cases p)
  from Cons.prems(1) p obtain ds1 g1
    where s1: "split_label randbelow tp vp label files (ds0, g0) = Inr (ds1, g1)"
      and s2: "split_samples randbelow tp vp all_samples (ds1, g1) = Inr (ds, g)"
    by (auto split: sum.splits)
  have rest: "map_of (train ds) key = map_of (train ds1) key
       \<and> map_of (validate ds) key = map_of (validate ds1) key
       \<and> map_of (test ds) key = map_of (test ds1) key"
    using s2 Cons.prems(2) by (intro Cons.IH) auto
  show ?case
  proof (cases "key = label")
    case True
    then have "length files < 10" using Cons.prems(2) p by simp
    then have "ds1 = ds0" using s1 by (simp add: split_label_skip)
    with rest show ?thesis by simp
  next
    case False
    with split_label_other [OF s1] rest show ?thesis by simp
  qed
qed

lemma split_samples_this:
  assumes "split_samples randbelow tp vp all_samples (ds0, g0) = Inr (ds, g)"
    and "distinct (map fst all_samples)"
    and "(label, files) \<in> set all_samples"
    and "10 \<le> length files"
  shows "\<exists>g1 a b. num_files (length files) tp = Inr a \<and> num_files (length files) vp = Inr b
       \<and> map_of (train ds) label = Some (take a (fst (shuffle randbelow g1 files)))
       \<and> map_of (validate ds) label = Some (take b (drop a (fst (shuffle randbelow g1 files))))
       \<and> map_of (test ds) label = Some (drop (a + b) (fst (shuffle randbelow g1 files)))"
  using assms
proof (induction all_samples arbitrary: ds0 g0)
  case Nil
  then show ?case by simp
next
  case (Cons p all_samples)
  obtain label' files' where p: "p = (label', files')" by (cases p)
  from Cons.prems(1) p obtain ds1 g1
    where s1: "split_label randbelow tp vp label' files' (ds0, g0) = Inr (ds1, g1)"
      and s2: "split_samples randbelow tp vp all_samples (ds1, g1) = Inr (ds, g)"
    by (auto split: sum.splits)
  show ?case
  proof (cases "(label, files) \<in> set all_samples")
    case True
    with s2 Cons.prems(2,4) show ?thesis by (intro Cons.IH) simp_all
  next
    case False
    then have eq: "label' = label" "files' = files" using Cons.prems(3) p by auto
    have "label \<notin> fst ` set all_samples" using Cons.prems(2) p eq by simp
    then have "\<And>fs. (label, fs) \<in> set all_samples \<Longrightarrow> length fs < 10"
      by (auto simp: image_iff)
    from split_samples_other [OF s2 this]
    have "map_of (train ds) label = map_of (train ds1) label
       \<and> map_of (validate ds) label = map_of (validate ds1) label
       \<and> map_of (test ds) label = map_of (test ds1) label" by simp
    with split_label_this [OF s1 [unfolded eq] Cons.prems(4)] show ?thesis by auto
  qed
qed

text \<open>Evaluating the shuffle and the split on concrete lists.\<close>

lemma list_update_Cons_numeral:
  "(x # xs)[numeral v := y] = x # xs[numeral v - 1 := y]"
  by (simp add: numeral_eq_Suc)

lemma shuffle_loop_numeral:
  "shuffle_loop randbelow (numeral v) g x =
     shuffle_loop randbelow (numeral v - 1) (snd (randbelow g (numeral v + 1)))
       (x[numeral v := x ! fst (randbelow g (numeral v + 1)),
          fst (randbelow g (numeral v + 1)) := x ! numeral v])"
  by (simp add: numeral_eq_Suc split: prod.splits)

lemma shuffle_loop_Suc_0:
  "shuffle_loop randbelow (Suc 0) g x =
     (x[Suc 0 := x ! fst (randbelow g 2), fst (randbelow g 2) := x ! Suc 0], snd (randbelow g 2))"
  by (simp add: numeral_2_eq_2 split: prod.splits)

lemmas shuffle_eval = shuffle_loop_numeral shuffle_loop_Suc_0 list_update_Cons_numeral

lemmas num_files_eval = num_files_def float_of_nat_def float_mul_def round53_def
  round_half_even_def is_inf_def py_int_of_float_def bit_length.simps Let_def
  train_percentage_default_def validate_percentage_default_def

lemma split_label_eval:
  assumes "10 \<le> length files"
    and "shuffle randbelow g files = (files', g')"
    and "num_files (length files) tp = Inr a"
    and "num_files (length files) vp = Inr b"
  shows "split_label randbelow tp vp label files (ds, g) =
           Inr (\<lparr>train = dict_set (train ds) label (take a files'),
                 validate = dict_set (validate ds) label (take b (drop a files')),
                 test = dict_set (test ds) label (drop (a + b) files')\<rparr>, g')"
proof -
  have "length files' = length files"
    using length_shuffle [of randbelow g files] assms(2) by simp
  with assms show ?thesis by (simp add: split_label_def)
qed

lemma num_files_12_train: "num_files 12 train_percentage_default = Inr 9"
  by (simp add: num_files_eval)

lemma num_files_12_validate: "num_files 12 validate_percentage_default = Inr 2"
  by (simp add: num_files_eval)

lemma split_samples_example: "split_samples (\<lambda>g n. (g mod n, g * 7 + 3)) train_percentage_default validate_percentage_default
    [(''Orca'', [10, 11, 12, 13, 14, 15, 16, 17, 18, 19, 20, 21::nat]), (''Seal'', [10, 11, 12, 13, 14])] (empty_datasets, 5::nat)
 = Inr (\<lparr>train = [(''Orca'', [10, 16, 12, 14, 11, 17, 13, 18, 20])],
         validate = [(''Orca'', [19, 21])], test = [(''Orca'', [15])]\<rparr>,
      10875297086)"
proof -
  have sh: "shuffle (\<lambda>g n. (g mod n, g * 7 + 3)) (5::nat) [10, 11, 12, 13, 14, 15, 16, 17, 18, 19, 20, 21::nat]
      = ([10, 16, 12, 14, 11, 17, 13, 18, 20, 19, 21, 15], 10875297086)"
  proof -
    have "length [10, 11, 12, 13, 14, 15, 16, 17, 18, 19, 20, 21::nat] - 1 = 11"
      by simp
    then have "shuffle (\<lambda>g n. (g mod n, g * 7 + 3)) (5::nat) [10, 11, 12, 13, 14, 15, 16, 17, 18, 19, 20, 21::nat]
       = shuffle_loop (\<lambda>g n. (g mod n, g * 7 + 3)) 11 (5::nat) [10, 11, 12, 13, 14, 15, 16, 17, 18, 19, 20, 21::nat]"
      by (simp only: shuffle_def)
    also have "\<dots> = ([10, 16, 12, 14, 11, 17, 13, 18, 20, 19, 21, 15], 10875297086)"
      by (simp add: shuffle_eval del: shuffle_loop.simps(2))
    finally show ?thesis .
  qed
  have n: "num_files (length [10, 11, 12, 13, 14, 15, 16, 17, 18, 19, 20, 21::nat]) train_percentage_default = Inr 9"
    "num_files (length [10, 11, 12, 13, 14, 15, 16, 17, 18, 19, 20, 21::nat]) validate_percentage_default = Inr 2"
  proof -
    have len: "length [10, 11, 12, 13, 14, 15, 16, 17, 18, 19, 20, 21::nat] = 12" by simp
    show "num_files (length [10, 11, 12, 13, 14, 15, 16, 17, 18, 19, 20, 21::nat]) train_percentage_default = Inr 9"
      by (simp only: len num_files_12_train)
    show "num_files (length [10, 11, 12, 13, 14, 15, 16, 17, 18, 19, 20, 21::nat]) validate_percentage_default = Inr 2"
      by (simp only: len num_files_12_validate)
  qed
  have sl: "split_label (\<lambda>g n. (g mod n, g * 7 + 3)) train_percentage_default validate_percentage_default
      ''Orca'' [10, 11, 12, 13, 14, 15, 16, 17, 18, 19, 20, 21::nat] (empty_datasets, 5::nat)
    = Inr (\<lparr>train = [(''Orca'', [10, 16, 12, 14, 11, 17, 13, 18, 20])],
         validate = [(''Orca'', [19, 21])], test = [(''Orca'', [15])]\<rparr>, 10875297086)"
    using split_label_eval [OF _ sh n, of "''Orca''" empty_datasets]
    by (simp add: empty_datasets_def)
  show ?thesis
    by (simp add: sl split_label_skip)
qed

lemma slices_append: "take a xs @ take b (drop a xs) @ drop (a + b) xs = xs"
proof -
  have "drop b (drop a xs) = drop (a + b) xs"
    by (simp add: add.commute)
  moreover have "take b (drop a xs) @ drop b (drop a xs) = drop a xs"
    by (rule append_take_drop_id)
  ultimately have "take b (drop a xs) @ drop (a + b) xs = drop a xs"
    by (simp only:)
  then show ?thesis
    by (simp only: append_take_drop_id)
qed

text \<open>
  C3. The labels and file lists are the items of a dictionary, so the labels are distinct,
  and \<open>randbelow g n\<close> draws a number below \<open>n\<close>. When the split returns, a label with at
  least 10 files has an entry in each of TRAIN, VALIDATE and TEST; the three lists together
  hold every file of the label exactly as often as the original list does (no omission,
  nothing added), their union is the original file set, and when no path is listed twice
  they are pairwise disjoint. A label with fewer than 10 files is a key of none of the
  three dictionaries.
\<close>

theorem split_samples_partition:
  assumes rb: "\<And>g n. 0 < n \<Longrightarrow> fst (randbelow g n) < n"
    and keys: "distinct (map fst all_samples)"
    and run: "split_samples randbelow train_percentage validate_percentage all_samples
                (empty_datasets, g) = Inr (ds, g')"
    and mem: "(label, files) \<in> set all_samples"
  shows "(10 \<le> length files \<longrightarrow>
           (\<exists>tr va te. map_of (train ds) label = Some tr
              \<and> map_of (validate ds) label = Some va
              \<and> map_of (test ds) label = Some te
              \<and> mset tr + mset va + mset te = mset files
              \<and> set tr \<union> set va \<union> set te = set files
              \<and> (distinct files \<longrightarrow>
                    set tr \<inter> set va = {} \<and> set tr \<inter> set te = {} \<and> set va \<inter> set te = {})))
       \<and> (length files < 10 \<longrightarrow>
            map_of (train ds) label = None
              \<and> map_of (validate ds) label = None
              \<and> map_of (test ds) label = None)"
proof (rule conjI; rule impI)
  assume long: "10 \<le> length files"
  from split_samples_this [OF run keys mem long] obtain g1 a b
    where tr: "map_of (train ds) label = Some (take a (fst (shuffle randbelow g1 files)))"
      and va: "map_of (validate ds) label = Some (take b (drop a (fst (shuffle randbelow g1 files))))"
      and te: "map_of (test ds) label = Some (drop (a + b) (fst (shuffle randbelow g1 files)))"
    by blast
  define xs where "xs = fst (shuffle randbelow g1 files)"
  have perm: "mset xs = mset files"
    unfolding xs_def using rb by (rule mset_shuffle)
  have app: "take a xs @ take b (drop a xs) @ drop (a + b) xs = xs"
    by (rule slices_append)
  have m: "mset (take a xs) + mset (take b (drop a xs)) + mset (drop (a + b) xs) = mset files"
    using arg_cong [OF app, of mset] perm by (simp add: ac_simps)
  have s: "set (take a xs) \<union> set (take b (drop a xs)) \<union> set (drop (a + b) xs) = set files"
    using arg_cong [OF app, of set] mset_eq_setD [OF perm] by (simp add: Un_assoc)
  have d: "set (take a xs) \<inter> set (take b (drop a xs)) = {}
         \<and> set (take a xs) \<inter> set (drop (a + b) xs) = {}
         \<and> set (take b (drop a xs)) \<inter> set (drop (a + b) xs) = {}" if "distinct files"
  proof -
    have "distinct xs" using that mset_eq_imp_distinct_iff [OF perm] by simp
    then have "distinct (take a xs @ take b (drop a xs) @ drop (a + b) xs)"
      by (simp only: app)
    then show ?thesis by auto
  qed
  show "\<exists>tr va te. map_of (train ds) label = Some tr
              \<and> map_of (validate ds) label = Some va
              \<and> map_of (test ds) label = Some te
              \<and> mset tr + mset va + mset te = mset files
              \<and> set tr \<union> set va \<union> set te = set files
              \<and> (distinct files \<longrightarrow>
                    set tr \<inter> set va = {} \<and> set tr \<inter> set te = {} \<and> set va \<inter> set te = {})"
    using tr va te m s d unfolding xs_def by blast
next
  assume short: "length files < 10"
  have "\<And>fs. (label, fs) \<in> set all_samples \<Longrightarrow> length fs < 10"
    using keys mem short by (auto dest: eq_key_imp_eq_value)
  from split_samples_other [OF run this]
  show "map_of (train ds) label = None \<and> map_of (validate ds) label = None
      \<and> map_of (test ds) label = None"
    by (simp add: empty_datasets_def)
qed

theorem split_samples_partition_witness:
  "split_samples (\<lambda>g n. (g mod n, g * 7 + 3)) train_percentage_default validate_percentage_default
      [(''Orca'', [10, 11, 12, 13, 14, 15, 16, 17, 18, 19, 20, 21::nat]),
       (''Seal'', [10, 11, 12, 13, 14])] (empty_datasets, 5::nat)
     = Inr (\<lparr>train = [(''Orca'', [10, 16, 12, 14, 11, 17, 13, 18, 20])],
             validate = [(''Orca'', [19, 21])], test = [(''Orca'', [15])]\<rparr>, 10875297086)
   \<and> mset [10, 16, 12, 14, 11, 17, 13, 18, 20] + mset [19, 21] + mset [15]
       = mset [10, 11, 12, 13, 14, 15, 16, 17, 18, 19, 20, 21::nat]
   \<and> set [10, 16, 12, 14, 11, 17, 13, 18, 20] \<inter> set [19, 21::nat] = {}
   \<and> map_of ([] :: (string \<times> nat list) list) ''Seal'' = None"
proof -
  have rb: "\<And>g n. 0 < n \<Longrightarrow> fst ((\<lambda>g n. (g mod n, g * 7 + 3)) (g::nat) n) < n"
    by simp
  have keys: "distinct (map fst [(''Orca'', [10, 11, 12, 13, 14, 15, 16, 17, 18, 19, 20, 21::nat]),
       (''Seal'', [10, 11, 12, 13, 14])])"
    by simp
  note th = split_samples_partition [OF rb keys split_samples_example]
  have o: "mset [10, 16, 12, 14, 11, 17, 13, 18, 20] + mset [19, 21] + mset [15]
       = mset [10, 11, 12, 13, 14, 15, 16, 17, 18, 19, 20, 21::nat]
     \<and> set [10, 16, 12, 14, 11, 17, 13, 18, 20] \<inter> set [19, 21::nat] = {}"
    using th [of "''Orca''" "[10, 11, 12, 13, 14, 15, 16, 17, 18, 19, 20, 21]"] by simp
  have s: "map_of ([] :: (string \<times> nat list) list) ''Seal'' = None"
    using th [of "''Seal''" "[10, 11, 12, 13, 14]"] by simp
  from o s split_samples_example show ?thesis by simp
qed

section \<open>Rounded products\<close>

lemma bit_length_bounds:
  "0 < n \<Longrightarrow> 2 ^ (bit_length n - 1) \<le> n \<and> n < 2 ^ bit_length n"
proof (induction n rule: bit_length.induct)
  case (1 n)
  show ?case
  proof (cases "n div 2 = 0")
    case True
    with "1.prems" have "n = 1" by (simp add: div_eq_0_iff) 
    then show ?thesis by (simp add: bit_length.simps)
  next
    case False
    then have pos: "0 < n div 2" by simp
    from "1.IH" [OF _ pos] "1.prems"
    have ih: "2 ^ (bit_length (n div 2) - 1) \<le> n div 2" "n div 2 < 2 ^ bit_length (n div 2)"
      by simp_all
    have bl: "bit_length n = Suc (bit_length (n div 2))"
      using "1.prems" by (subst bit_length.simps) simp
    have "0 < bit_length (n div 2)"
      using pos by (subst bit_length.simps) simp
    then have "(2::nat) ^ (bit_length n - 1) = 2 * 2 ^ (bit_length (n div 2) - 1)"
      by (cases "bit_length (n div 2)") (simp_all add: bl)
    moreover have "(2::nat) ^ bit_length n = 2 * 2 ^ bit_length (n div 2)"
      by (simp add: bl)
    moreover have "2 * (n div 2) \<le> n" by simp
    moreover have "n < 2 * (n div 2) + 2" by presburger
    ultimately show ?thesis using ih by linarith
  qed
qed

lemma round_half_even_upper:
  "2 * (round_half_even P k * 2 ^ k) \<le> 2 * P + 2 ^ k"
proof -
  define w :: nat where "w = 2 ^ k"
  define q where "q = P div w"
  define r where "r = P mod w"
  have P: "P = q * w + r" by (simp add: q_def r_def)
  have "round_half_even P k = q \<or> (round_half_even P k = q + 1 \<and> w \<le> 2 * r)"
    by (auto simp: round_half_even_def Let_def w_def q_def r_def)
  then show ?thesis
  proof
    assume "round_half_even P k = q"
    then show ?thesis by (simp add: P w_def [symmetric])
  next
    assume "round_half_even P k = q + 1 \<and> w \<le> 2 * r"
    then show ?thesis by (simp add: P w_def [symmetric] algebra_simps)
  qed
qed

lemma double_val_nonneg: "0 \<le> double_val d"
  by (simp add: double_val_def)

lemma round53_upper:
  "double_val (round53 P e) \<le> of_nat P * 2 powi e * (1 + 1 / 2 ^ 53)"
proof (cases "bit_length P \<le> 53")
  case True
  have "of_nat P * 2 powi e * 1 \<le> of_nat P * 2 powi e * (1 + 1 / 2 ^ 53 :: rat)"
    by (intro mult_left_mono) simp_all
  with True show ?thesis by (simp add: round53_def double_val_def)
next
  case False
  define k where "k = bit_length P - 53"
  define R where "R = round_half_even P k"
  have Ppos: "0 < P" using False by (cases "P = 0") (simp_all add: bit_length.simps)
  have "bit_length P - 1 = k + 52" using False by (simp add: k_def)
  with bit_length_bounds [OF Ppos] have "2 ^ (k + 52) \<le> P" by simp
  then have "(2::nat) ^ k * 2 ^ 52 \<le> P" by (simp add: power_add)
  then have "(of_nat ((2::nat) ^ k * 2 ^ 52) :: rat) \<le> of_nat P" by (simp only: of_nat_le_iff)
  then have w: "(2::rat) ^ k * 2 ^ 52 \<le> of_nat P" by simp
  have "(of_nat (2 * (R * 2 ^ k)) :: rat) \<le> of_nat (2 * P + 2 ^ k)"
    unfolding R_def using round_half_even_upper [of P k] by (simp only: of_nat_le_iff)
  then have "2 * (of_nat R * 2 ^ k) \<le> 2 * of_nat P + (2::rat) ^ k" by simp
  moreover have "(2::rat) ^ k \<le> of_nat P / 2 ^ 52"
    using w by (simp add: field_simps)
  ultimately have "2 * (of_nat R * 2 ^ k) \<le> 2 * of_nat P + (of_nat P / 2 ^ 52 :: rat)"
    by linarith
  then have Rk: "of_nat R * 2 ^ k \<le> of_nat P * (1 + 1 / 2 ^ 53 :: rat)"
    by (simp add: field_simps)
  have "double_val (round53 P e) = of_nat R * 2 powi (e + int k)"
    using False by (simp add: round53_def double_val_def Let_def k_def R_def)
  also have "\<dots> = (of_nat R * 2 ^ k) * 2 powi e"
    by (simp add: power_int_add)
  also have "\<dots> \<le> (of_nat P * (1 + 1 / 2 ^ 53)) * 2 powi e"
    using Rk by (intro mult_right_mono) simp_all
  finally show ?thesis by (simp add: mult_ac)
qed

lemma float_of_nat_upper:
  "double_val (float_of_nat n) \<le> of_nat n * (1 + 1 / 2 ^ 53)"
  using round53_upper [of n 0] by (simp add: float_of_nat_def)

lemma float_mul_upper:
  "double_val (float_mul x y) \<le> double_val x * double_val y * (1 + 1 / 2 ^ 53)"
proof -
  have "(of_nat (mant x * mant y) :: rat) * 2 powi (expo x + expo y)
          = double_val x * double_val y"
    by (simp add: double_val_def power_int_add)
  with round53_upper [of "mant x * mant y" "expo x + expo y"]
  show ?thesis by (simp add: float_mul_def)
qed

lemma py_int_of_float_le: "of_nat (py_int_of_float d) \<le> double_val d"
proof (cases "0 \<le> expo d")
  case True
  then have "2 powi expo d = (2::rat) ^ nat (expo d)"
    by (simp add: power_int_def)
  with True show ?thesis by (simp add: py_int_of_float_def double_val_def)
next
  case False
  then have p: "2 powi expo d = 1 / (2::rat) ^ nat (- expo d)"
    by (simp add: power_int_def field_simps)
  have "(of_nat (mant d div 2 ^ nat (- expo d)) :: rat) \<le> of_nat (mant d) / of_nat (2 ^ nat (- expo d))"
    by (rule of_nat_div_le_of_nat)
  with False p show ?thesis by (simp add: py_int_of_float_def double_val_def)
qed

lemma not_is_inf:
  assumes "double_val d < 2 ^ 1024"
  shows "\<not> is_inf d"
proof
  assume inf: "is_inf d"
  then have pos: "0 < mant d" and big: "1024 < int (bit_length (mant d)) + expo d"
    by (simp_all add: is_inf_def)
  define L where "L = bit_length (mant d)"
  have Lpos: "0 < L" using pos unfolding L_def by (subst bit_length.simps) simp
  have "2 ^ (L - 1) \<le> mant d" using bit_length_bounds [OF pos] by (simp add: L_def)
  then have "(of_nat (2 ^ (L - 1)) :: rat) \<le> of_nat (mant d)" by (simp only: of_nat_le_iff)
  then have "(2::rat) powi (int L - 1) \<le> of_nat (mant d)"
    using Lpos by (simp add: power_int_def nat_diff_distrib')
  then have "(2::rat) powi (int L - 1) * 2 powi expo d \<le> double_val d"
    unfolding double_val_def by (intro mult_right_mono) simp_all
  then have "(2::rat) powi (int L - 1 + expo d) \<le> double_val d"
    by (simp add: power_int_add)
  moreover have "(2::rat) powi 1024 \<le> 2 powi (int L - 1 + expo d)"
    using big by (intro power_int_increasing) (simp_all add: L_def)
  ultimately have "(2::rat) powi 1024 \<le> double_val d" by simp
  then have "(2::rat) ^ 1024 \<le> double_val d" by (simp add: power_int_def)
  with assms show False by simp
qed

lemma num_files_upper:
  assumes n: "n < 2 ^ 63" and p: "double_val percentage \<le> 1"
  shows "\<exists>a. num_files n percentage = Inr a
           \<and> of_nat a \<le> of_nat (n + 1) * double_val percentage * (1 + 1 / 2 ^ 53) ^ 2"
proof -
  define x where "x = float_of_nat (n + 1)"
  define y where "y = float_mul x percentage"
  define u :: rat where "u = 1 + 1 / 2 ^ 53"
  have u: "1 \<le> u" "u \<le> 2" by (simp_all add: u_def)
  have "n + 1 \<le> 2 ^ 63" using n by simp
  then have "(of_nat (n + 1) :: rat) \<le> of_nat (2 ^ 63)" by (simp only: of_nat_le_iff)
  then have m: "(of_nat (n + 1) :: rat) \<le> 2 ^ 63" by simp
  have x: "double_val x \<le> of_nat (n + 1) * u"
    unfolding x_def u_def by (rule float_of_nat_upper)
  have "of_nat (n + 1) * u \<le> 2 ^ 63 * (2::rat)"
    using m u by (intro mult_mono) simp_all
  with x have xb: "double_val x \<le> 2 ^ 64" by simp
  then have xf: "\<not> is_inf x" by (intro not_is_inf) simp
  have y0: "double_val y \<le> double_val x * double_val percentage * u"
    unfolding y_def u_def by (rule float_mul_upper)
  have "double_val x * double_val percentage \<le> (of_nat (n + 1) * u) * double_val percentage"
    using x by (intro mult_right_mono double_val_nonneg)
  then have "double_val x * double_val percentage * u
               \<le> (of_nat (n + 1) * u) * double_val percentage * u"
    using u by (rule_tac mult_right_mono) simp_all
  with y0 have y: "double_val y \<le> of_nat (n + 1) * double_val percentage * u ^ 2"
    by (simp add: power2_eq_square mult_ac)
  have xp: "double_val x * double_val percentage \<le> 2 ^ 64 * 1"
    using mult_mono [OF xb p] double_val_nonneg [of percentage] by simp
  have "double_val x * double_val percentage * u \<le> (2 ^ 64 * 1) * 2"
    using mult_mono [OF xp u(2)] u(1) by simp
  with y0 have "double_val y \<le> 2 ^ 65" by simp
  then have yf: "\<not> is_inf y" by (intro not_is_inf) simp
  have "num_files n percentage = Inr (py_int_of_float y)"
    using xf yf by (simp add: num_files_def Let_def x_def y_def)
  moreover have "of_nat (py_int_of_float y) \<le> of_nat (n + 1) * double_val percentage * u ^ 2"
    using py_int_of_float_le [of y] y by simp
  ultimately show ?thesis unfolding u_def by blast
qed

lemma default_percentages:
  "double_val train_percentage_default = 3152519739159347 / 2 ^ 52"
  "double_val validate_percentage_default = 3602879701896397 / 2 ^ 54"
  by (simp_all add: double_val_def train_percentage_default_def validate_percentage_default_def
      power_int_minus field_simps)

lemma default_percentages_le_1:
  "double_val train_percentage_default \<le> 1" "double_val validate_percentage_default \<le> 1"
  by (simp_all add: default_percentages)

lemma default_percentages_sum:
  "(double_val train_percentage_default + double_val validate_percentage_default)
     * (1 + 1 / 2 ^ 53) ^ 2 \<le> 9001 / 10000"
  by (simp add: default_percentages power2_eq_square field_simps)

lemma num_files_default:
  assumes "10 \<le> n" "n < 2 ^ 63"
  shows "\<exists>a b. num_files n train_percentage_default = Inr a
           \<and> num_files n validate_percentage_default = Inr b \<and> a + b < n"
proof -
  define u :: rat where "u = (1 + 1 / 2 ^ 53) ^ 2"
  from num_files_upper [OF assms(2) default_percentages_le_1(1)] obtain a
    where a: "num_files n train_percentage_default = Inr a"
      "of_nat a \<le> of_nat (n + 1) * double_val train_percentage_default * u"
    unfolding u_def by blast
  from num_files_upper [OF assms(2) default_percentages_le_1(2)] obtain b
    where b: "num_files n validate_percentage_default = Inr b"
      "of_nat b \<le> of_nat (n + 1) * double_val validate_percentage_default * u"
    unfolding u_def by blast
  have "(of_nat (a + b) :: rat) \<le> of_nat (n + 1) *
      ((double_val train_percentage_default + double_val validate_percentage_default) * u)"
    using a(2) b(2) by (simp add: algebra_simps)
  also have "\<dots> \<le> of_nat (n + 1) * (9001 / 10000)"
    unfolding u_def by (intro mult_left_mono default_percentages_sum) simp
  also have "\<dots> < of_nat n"
  proof -
    have "(10 :: rat) \<le> of_nat n" using assms(1) by simp
    then show ?thesis by simp
  qed
  finally have "a + b < n" by (simp only: of_nat_less_iff)
  with a(1) b(1) show ?thesis by blast
qed

lemma exact_default_counts:
  assumes "10 \<le> n"
  shows "\<lfloor>(of_nat n + 1) * (7 / 10 :: rat)\<rfloor> + \<lfloor>(of_nat n + 1) * (2 / 10 :: rat)\<rfloor> < int n"
proof -
  have "of_int \<lfloor>(of_nat n + 1) * (7 / 10 :: rat)\<rfloor> \<le> (of_nat n + 1) * (7 / 10 :: rat)"
    "of_int \<lfloor>(of_nat n + 1) * (2 / 10 :: rat)\<rfloor> \<le> (of_nat n + 1) * (2 / 10 :: rat)"
    by (rule of_int_floor_le)+
  moreover have "(10 :: rat) \<le> of_nat n" using assms by simp
  ultimately have "(of_int (\<lfloor>(of_nat n + 1) * (7 / 10 :: rat)\<rfloor> + \<lfloor>(of_nat n + 1) * (2 / 10 :: rat)\<rfloor>) :: rat)
      < of_int (int n)"
    by simp
  then show ?thesis by (simp only: of_int_less_iff)
qed

lemma split_samples_total:
  assumes "double_val tp \<le> 1" "double_val vp \<le> 1"
    and "\<forall>(l, fs) \<in> set all_samples. length fs < 2 ^ 63"
  shows "\<exists>ds' g'. split_samples randbelow tp vp all_samples (ds, g) = Inr (ds', g')"
  using assms(3)
proof (induction all_samples arbitrary: ds g)
  case Nil
  then show ?case by simp
next
  case (Cons p all_samples)
  obtain label files where p: "p = (label, files)" by (cases p)
  have len: "length files < 2 ^ 63" using Cons.prems p by simp
  have "\<exists>ds1 g1. split_label randbelow tp vp label files (ds, g) = Inr (ds1, g1)"
  proof (cases "length files < 10")
    case True
    then show ?thesis by (simp add: split_label_skip)
  next
    case False
    obtain files' g' where sh: "shuffle randbelow g files = (files', g')"
      by (cases "shuffle randbelow g files")
    from num_files_upper [OF len assms(1)] obtain a where "num_files (length files) tp = Inr a"
      by blast
    moreover from num_files_upper [OF len assms(2)] obtain b where "num_files (length files) vp = Inr b"
      by blast
    ultimately show ?thesis
      using split_label_eval [OF _ sh, of tp a vp b label ds] False by simp
  qed
  then obtain ds1 g1 where "split_label randbelow tp vp label files (ds, g) = Inr (ds1, g1)"
    by blast
  moreover from Cons.IH [of ds1 g1] Cons.prems obtain ds' g'
    where "split_samples randbelow tp vp all_samples (ds1, g1) = Inr (ds', g')"
    by auto
  ultimately show ?case by (simp add: p)
qed

section \<open>Sizes of the three slices\<close>

text \<open>
  C4 as stated fails, in two ways. With both fractions at one half and 11 files, both counts
  are \<open>\<lfloor>12 / 2\<rfloor> = 6\<close>; TRAIN takes 6 files and only 5 are left for VALIDATE. And the
  count is the truncated double precision product, not the floor of the exact one: at the
  default 0.70 and 89 files it is 62 where \<open>\<lfloor>90 * 0.70\<rfloor> = 63\<close>, and at 19 files it is 14
  where the exact product of 20 and the double nearest to 0.7 has floor 13.
\<close>

theorem split_slices_counterexample:
  "split_samples (\<lambda>g n. (g mod n, g * 7 + 3)) (Double 1 (- 1)) (Double 1 (- 1))
      [(''Orca'', [10, 11, 12, 13, 14, 15, 16, 17, 18, 19, 20::nat])] (empty_datasets, 5::nat)
     = Inr (\<lparr>train = [(''Orca'', [11, 10, 17, 20, 14, 12])],
             validate = [(''Orca'', [13, 16, 19, 18, 15])],
             test = [(''Orca'', [])]\<rparr>, 1553613869)
   \<and> double_val (Double 1 (- 1)) = 1 / 2
   \<and> \<lfloor>(11 + 1) * (1 / 2 :: rat)\<rfloor> = 6
   \<and> num_files 89 train_percentage_default = Inr 62
   \<and> \<lfloor>(89 + 1) * (7 / 10 :: rat)\<rfloor> = 63
   \<and> num_files 19 train_percentage_default = Inr 14
   \<and> \<lfloor>(19 + 1) * double_val train_percentage_default\<rfloor> = 13"
proof -
  have sh: "shuffle (\<lambda>g n. (g mod n, g * 7 + 3)) (5::nat) [10, 11, 12, 13, 14, 15, 16, 17, 18, 19, 20::nat]
      = ([11, 10, 17, 20, 14, 12, 13, 16, 19, 18, 15], 1553613869)"
  proof -
    have "length [10, 11, 12, 13, 14, 15, 16, 17, 18, 19, 20::nat] - 1 = 10"
      by simp
    then have "shuffle (\<lambda>g n. (g mod n, g * 7 + 3)) (5::nat) [10, 11, 12, 13, 14, 15, 16, 17, 18, 19, 20::nat]
       = shuffle_loop (\<lambda>g n. (g mod n, g * 7 + 3)) 10 (5::nat) [10, 11, 12, 13, 14, 15, 16, 17, 18, 19, 20::nat]"
      by (simp only: shuffle_def)
    also have "\<dots> = ([11, 10, 17, 20, 14, 12, 13, 16, 19, 18, 15], 1553613869)"
      by (simp add: shuffle_eval del: shuffle_loop.simps(2))
    finally show ?thesis .
  qed
  have len: "length [10, 11, 12, 13, 14, 15, 16, 17, 18, 19, 20::nat] = 11" by simp
  have "num_files 11 (Double 1 (- 1)) = Inr 6"
    by (simp add: num_files_eval)
  then have n: "num_files (length [10, 11, 12, 13, 14, 15, 16, 17, 18, 19, 20::nat]) (Double 1 (- 1)) = Inr 6"
    by (simp only: len)
  have sl: "split_label (\<lambda>g n. (g mod n, g * 7 + 3)) (Double 1 (- 1)) (Double 1 (- 1))
      ''Orca'' [10, 11, 12, 13, 14, 15, 16, 17, 18, 19, 20::nat] (empty_datasets, 5::nat)
    = Inr (\<lparr>train = [(''Orca'', [11, 10, 17, 20, 14, 12])],
             validate = [(''Orca'', [13, 16, 19, 18, 15])],
             test = [(''Orca'', [])]\<rparr>, 1553613869)"
    using split_label_eval [OF _ sh n n, of "''Orca''" empty_datasets]
    by (simp add: empty_datasets_def)
  have run: "split_samples (\<lambda>g n. (g mod n, g * 7 + 3)) (Double 1 (- 1)) (Double 1 (- 1))
      [(''Orca'', [10, 11, 12, 13, 14, 15, 16, 17, 18, 19, 20::nat])] (empty_datasets, 5::nat)
     = Inr (\<lparr>train = [(''Orca'', [11, 10, 17, 20, 14, 12])],
             validate = [(''Orca'', [13, 16, 19, 18, 15])],
             test = [(''Orca'', [])]\<rparr>, 1553613869)"
    by (simp only: split_samples.simps sl sum.case)
  have half: "double_val (Double 1 (- 1)) = 1 / 2"
    by (simp add: double_val_def power_int_minus)
  have f1: "\<lfloor>(11 + 1) * (1 / 2 :: rat)\<rfloor> = 6"
    by (simp add: floor_eq_iff)
  have a89: "num_files 89 train_percentage_default = Inr 62"
    by (simp add: num_files_eval)
  have f89: "\<lfloor>(89 + 1) * (7 / 10 :: rat)\<rfloor> = 63"
    by (simp add: floor_eq_iff)
  have a19: "num_files 19 train_percentage_default = Inr 14"
    by (simp add: num_files_eval)
  have f19: "\<lfloor>(19 + 1) * double_val train_percentage_default\<rfloor> = 13"
    by (simp add: default_percentages floor_eq_iff)
  from run half f1 a89 f89 a19 f19 show ?thesis by (simp only: simp_thms)
qed

text \<open>
  C4, amended. For a label with at least 10 files, let \<open>a\<close> and \<open>b\<close> be
  \<^verbatim>\<open>int((n + 1) * train_percentage)\<close> and \<^verbatim>\<open>int((n + 1) * validate_percentage)\<close> as the
  double precision arithmetic gives them. TRAIN is the first \<open>a\<close> files of the shuffled
  list, VALIDATE the next \<open>b\<close> and TEST all that remain, each slice ending where the list
  ends: the sizes are \<open>min a n\<close>, \<open>min b (n - a)\<close> and \<open>n - (a + b)\<close>. The slices follow one
  another in the order train, validate, remainder and concatenate to the shuffled list,
  which is a permutation of the label's files.
\<close>

theorem split_samples_slices:
  assumes rb: "\<And>g n. 0 < n \<Longrightarrow> fst (randbelow g n) < n"
    and keys: "distinct (map fst all_samples)"
    and run: "split_samples randbelow train_percentage validate_percentage all_samples
                (empty_datasets, g) = Inr (ds, g')"
    and mem: "(label, files) \<in> set all_samples"
    and long: "10 \<le> length files"
  shows "\<exists>g1 a b. num_files (length files) train_percentage = Inr a
           \<and> num_files (length files) validate_percentage = Inr b
           \<and> mset (fst (shuffle randbelow g1 files)) = mset files
           \<and> map_of (train ds) label = Some (take a (fst (shuffle randbelow g1 files)))
           \<and> map_of (validate ds) label = Some (take b (drop a (fst (shuffle randbelow g1 files))))
           \<and> map_of (test ds) label = Some (drop (a + b) (fst (shuffle randbelow g1 files)))
           \<and> take a (fst (shuffle randbelow g1 files))
               @ take b (drop a (fst (shuffle randbelow g1 files)))
               @ drop (a + b) (fst (shuffle randbelow g1 files)) = fst (shuffle randbelow g1 files)
           \<and> length (take a (fst (shuffle randbelow g1 files))) = min a (length files)
           \<and> length (take b (drop a (fst (shuffle randbelow g1 files)))) = min b (length files - a)
           \<and> length (drop (a + b) (fst (shuffle randbelow g1 files))) = length files - (a + b)"
proof -
  from split_samples_this [OF run keys mem long] obtain g1 a b
    where ab: "num_files (length files) train_percentage = Inr a"
        "num_files (length files) validate_percentage = Inr b"
      and tr: "map_of (train ds) label = Some (take a (fst (shuffle randbelow g1 files)))"
      and va: "map_of (validate ds) label = Some (take b (drop a (fst (shuffle randbelow g1 files))))"
      and te: "map_of (test ds) label = Some (drop (a + b) (fst (shuffle randbelow g1 files)))"
    by blast
  have perm: "mset (fst (shuffle randbelow g1 files)) = mset files"
    using rb by (rule mset_shuffle)
  have len: "length (fst (shuffle randbelow g1 files)) = length files"
    by (rule length_shuffle)
  have lens: "length (take a (fst (shuffle randbelow g1 files))) = min a (length files)"
    "length (take b (drop a (fst (shuffle randbelow g1 files)))) = min b (length files - a)"
    "length (drop (a + b) (fst (shuffle randbelow g1 files))) = length files - (a + b)"
    by (simp_all add: len min.commute)
  show ?thesis
    using ab tr va te perm lens slices_append [of a "fst (shuffle randbelow g1 files)" b]
    by blast
qed

lemma example_randbelow: "\<And>g n. 0 < n \<Longrightarrow> fst ((\<lambda>g n. (g mod n, g * 7 + 3)) (g::nat) n) < n"
  by simp

lemma example_keys:
  "distinct (map fst [(''Orca'', [10, 11, 12, 13, 14, 15, 16, 17, 18, 19, 20, 21::nat]),
       (''Seal'', [10, 11, 12, 13, 14])])"
  by simp

theorem split_samples_slices_witness:
  "split_samples (\<lambda>g n. (g mod n, g * 7 + 3)) train_percentage_default validate_percentage_default
      [(''Orca'', [10, 11, 12, 13, 14, 15, 16, 17, 18, 19, 20, 21::nat]),
       (''Seal'', [10, 11, 12, 13, 14])] (empty_datasets, 5::nat)
     = Inr (\<lparr>train = [(''Orca'', [10, 16, 12, 14, 11, 17, 13, 18, 20])],
             validate = [(''Orca'', [19, 21])], test = [(''Orca'', [15])]\<rparr>, 10875297086)
   \<and> (\<exists>g1 a b. num_files 12 train_percentage_default = Inr a
         \<and> num_files 12 validate_percentage_default = Inr b
         \<and> mset (fst (shuffle (\<lambda>g n. (g mod n, g * 7 + 3)) g1 [10, 11, 12, 13, 14, 15, 16, 17, 18, 19, 20, 21::nat]))
             = mset [10, 11, 12, 13, 14, 15, 16, 17, 18, 19, 20, 21::nat]
         \<and> Some [10, 16, 12, 14, 11, 17, 13, 18, 20]
             = Some (take a (fst (shuffle (\<lambda>g n. (g mod n, g * 7 + 3)) g1 [10, 11, 12, 13, 14, 15, 16, 17, 18, 19, 20, 21::nat])))
         \<and> Some [19, 21]
             = Some (take b (drop a (fst (shuffle (\<lambda>g n. (g mod n, g * 7 + 3)) g1 [10, 11, 12, 13, 14, 15, 16, 17, 18, 19, 20, 21::nat]))))
         \<and> Some [15]
             = Some (drop (a + b) (fst (shuffle (\<lambda>g n. (g mod n, g * 7 + 3)) g1 [10, 11, 12, 13, 14, 15, 16, 17, 18, 19, 20, 21::nat]))))"
proof -
  have "10 \<le> length [10, 11, 12, 13, 14, 15, 16, 17, 18, 19, 20, 21::nat]" by simp
  from split_samples_slices [OF example_randbelow example_keys split_samples_example _ this, of "''Orca''"]
  obtain g1 a b where
    "num_files (length [10, 11, 12, 13, 14, 15, 16, 17, 18, 19, 20, 21::nat]) train_percentage_default = Inr a"
    "num_files (length [10, 11, 12, 13, 14, 15, 16, 17, 18, 19, 20, 21::nat]) validate_percentage_default = Inr b"
    "mset (fst (shuffle (\<lambda>g n. (g mod n, g * 7 + 3)) g1 [10, 11, 12, 13, 14, 15, 16, 17, 18, 19, 20, 21::nat]))
             = mset [10, 11, 12, 13, 14, 15, 16, 17, 18, 19, 20, 21::nat]"
    "Some [10, 16, 12, 14, 11, 17, 13, 18, 20]
             = Some (take a (fst (shuffle (\<lambda>g n. (g mod n, g * 7 + 3)) g1 [10, 11, 12, 13, 14, 15, 16, 17, 18, 19, 20, 21::nat])))"
    "Some [19, 21]
             = Some (take b (drop a (fst (shuffle (\<lambda>g n. (g mod n, g * 7 + 3)) g1 [10, 11, 12, 13, 14, 15, 16, 17, 18, 19, 20, 21::nat]))))"
    "Some [15]
             = Some (drop (a + b) (fst (shuffle (\<lambda>g n. (g mod n, g * 7 + 3)) g1 [10, 11, 12, 13, 14, 15, 16, 17, 18, 19, 20, 21::nat])))"
    by auto
  moreover have "length [10, 11, 12, 13, 14, 15, 16, 17, 18, 19, 20, 21::nat] = 12" by simp
  ultimately show ?thesis
    using split_samples_example by (simp only:) blast
qed

section \<open>The default fractions leave files for TEST\<close>

text \<open>
  C10. At the default fractions 0.70 and 0.20 the split returns (a Python list has fewer
  than \<open>2 ^ 63\<close> elements, so no product overflows), and every label with at least 10
  files gets a non-empty TEST list: the two counts
  \<^verbatim>\<open>int((n + 1) * 0.70)\<close> and \<^verbatim>\<open>int((n + 1) * 0.20)\<close>, as double precision arithmetic
  gives them, add up to less than \<open>n\<close>. So do the exact floors
  \<open>\<lfloor>(n + 1) * 0.70\<rfloor> + \<lfloor>(n + 1) * 0.20\<rfloor>\<close>.
\<close>

theorem default_split_test_nonempty:
  assumes keys: "distinct (map fst all_samples)"
    and lens: "\<forall>(l, fs) \<in> set all_samples. length fs < 2 ^ 63"
    and mem: "(label, files) \<in> set all_samples"
    and long: "10 \<le> length files"
  shows "(\<exists>ds g'. split_samples randbelow train_percentage_default validate_percentage_default
                    all_samples (empty_datasets, g) = Inr (ds, g')
            \<and> (\<exists>te. map_of (test ds) label = Some te \<and> te \<noteq> []))
       \<and> (\<exists>a b. num_files (length files) train_percentage_default = Inr a
             \<and> num_files (length files) validate_percentage_default = Inr b
             \<and> a + b < length files)
       \<and> \<lfloor>(of_nat (length files) + 1) * (7 / 10 :: rat)\<rfloor>
           + \<lfloor>(of_nat (length files) + 1) * (2 / 10 :: rat)\<rfloor> < int (length files)"
proof -
  have len: "length files < 2 ^ 63" using lens mem by auto
  from num_files_default [OF long len] obtain a b
    where ab: "num_files (length files) train_percentage_default = Inr a"
      "num_files (length files) validate_percentage_default = Inr b" "a + b < length files"
    by blast
  from split_samples_total [OF default_percentages_le_1 lens, of randbelow empty_datasets g] obtain ds g'
    where run: "split_samples randbelow train_percentage_default validate_percentage_default
                    all_samples (empty_datasets, g) = Inr (ds, g')"
    by blast
  from split_samples_this [OF run keys mem long] ab obtain g1
    where te: "map_of (test ds) label = Some (drop (a + b) (fst (shuffle randbelow g1 files)))"
    by auto
  have "length (drop (a + b) (fst (shuffle randbelow g1 files))) = length files - (a + b)"
    by (simp add: length_shuffle)
  with ab(3) have "drop (a + b) (fst (shuffle randbelow g1 files)) \<noteq> []"
    by (metis length_0_conv zero_less_diff less_irrefl)
  with run te ab exact_default_counts [OF long] show ?thesis by blast
qed

theorem default_split_test_nonempty_witness:
  "(\<exists>ds g'. split_samples (\<lambda>g n. (g mod n, g * 7 + 3)) train_percentage_default
                validate_percentage_default
                [(''Orca'', [10, 11, 12, 13, 14, 15, 16, 17, 18, 19, 20, 21::nat]),
                 (''Seal'', [10, 11, 12, 13, 14])] (empty_datasets, 5::nat) = Inr (ds, g')
            \<and> (\<exists>te. map_of (test ds) ''Orca'' = Some te \<and> te \<noteq> []))
   \<and> num_files 12 train_percentage_default = Inr 9
   \<and> num_files 12 validate_percentage_default = Inr 2
   \<and> (9::nat) + 2 < 12"
proof -
  have lens: "\<forall>(l, fs) \<in> set [(''Orca'', [10, 11, 12, 13, 14, 15, 16, 17, 18, 19, 20, 21::nat]),
                 (''Seal'', [10, 11, 12, 13, 14])]. length fs < 2 ^ 63"
    by simp
  have "10 \<le> length [10, 11, 12, 13, 14, 15, 16, 17, 18, 19, 20, 21::nat]" by simp
  from default_split_test_nonempty [OF example_keys lens _ this, of "''Orca''" "\<lambda>g n. (g mod n, g * 7 + 3)" 5]
  have "\<exists>ds g'. split_samples (\<lambda>g n. (g mod n, g * 7 + 3)) train_percentage_default
                validate_percentage_default
                [(''Orca'', [10, 11, 12, 13, 14, 15, 16, 17, 18, 19, 20, 21::nat]),
                 (''Seal'', [10, 11, 12, 13, 14])] (empty_datasets, 5::nat) = Inr (ds, g')
            \<and> (\<exists>te. map_of (test ds) ''Orca'' = Some te \<and> te \<noteq> [])"
    by simp
  then show ?thesis
    using num_files_12_train num_files_12_validate by simp
qed

section \<open>The seed and the shuffle\<close>

lemma split_samples_example_6:
  "split_samples (\<lambda>g n. (g mod n, g * 7 + 3)) train_percentage_default validate_percentage_default
    [(''Orca'', [10, 11, 12, 13, 14, 15, 16, 17, 18, 19, 20, 21::nat]), (''Seal'', [10, 11, 12, 13, 14])]
    (empty_datasets, 6::nat)
 = Inr (\<lparr>train = [(''Orca'', [20, 17, 15, 12, 14, 10, 13, 19, 21])],
         validate = [(''Orca'', [18, 11])], test = [(''Orca'', [16])]\<rparr>,
      12852623829)"
proof -
  have sh: "shuffle (\<lambda>g n. (g mod n, g * 7 + 3)) (6::nat) [10, 11, 12, 13, 14, 15, 16, 17, 18, 19, 20, 21::nat]
      = ([20, 17, 15, 12, 14, 10, 13, 19, 21, 18, 11, 16], 12852623829)"
  proof -
    have "length [10, 11, 12, 13, 14, 15, 16, 17, 18, 19, 20, 21::nat] - 1 = 11"
      by simp
    then have "shuffle (\<lambda>g n. (g mod n, g * 7 + 3)) (6::nat) [10, 11, 12, 13, 14, 15, 16, 17, 18, 19, 20, 21::nat]
       = shuffle_loop (\<lambda>g n. (g mod n, g * 7 + 3)) 11 (6::nat) [10, 11, 12, 13, 14, 15, 16, 17, 18, 19, 20, 21::nat]"
      by (simp only: shuffle_def)
    also have "\<dots> = ([20, 17, 15, 12, 14, 10, 13, 19, 21, 18, 11, 16], 12852623829)"
      by (simp add: shuffle_eval del: shuffle_loop.simps(2))
    finally show ?thesis .
  qed
  have len: "length [10, 11, 12, 13, 14, 15, 16, 17, 18, 19, 20, 21::nat] = 12" by simp
  have n: "num_files (length [10, 11, 12, 13, 14, 15, 16, 17, 18, 19, 20, 21::nat]) train_percentage_default = Inr 9"
    "num_files (length [10, 11, 12, 13, 14, 15, 16, 17, 18, 19, 20, 21::nat]) validate_percentage_default = Inr 2"
    by (simp_all only: len num_files_12_train num_files_12_validate)
  have sl: "split_label (\<lambda>g n. (g mod n, g * 7 + 3)) train_percentage_default validate_percentage_default
      ''Orca'' [10, 11, 12, 13, 14, 15, 16, 17, 18, 19, 20, 21::nat] (empty_datasets, 6::nat)
    = Inr (\<lparr>train = [(''Orca'', [20, 17, 15, 12, 14, 10, 13, 19, 21])],
         validate = [(''Orca'', [18, 11])], test = [(''Orca'', [16])]\<rparr>, 12852623829)"
    using split_label_eval [OF _ sh n, of "''Orca''" empty_datasets]
    by (simp add: empty_datasets_def)
  show ?thesis
    by (simp add: sl split_label_skip)
qed

text \<open>
  C5. Two runs over identical file lists should give identical TRAIN, VALIDATE and TEST
  assignments, because a seed is fixed when the process starts. The seed that is fixed is
  numpy's; the shuffle draws from the generator of the \<^verbatim>\<open>random\<close> module, which starts
  in a state chosen by the operating system. Here two processes that start in the states
  5 and 6 of a small generator both hold the numpy seed 251 and split the same two labels
  differently.
\<close>

theorem split_depends_on_os_seed:
  "split_stage (\<lambda>g n. (g mod n, g * 7 + 3)) train_percentage_default validate_percentage_default
      [(''Orca'', [10, 11, 12, 13, 14, 15, 16, 17, 18, 19, 20, 21::nat]),
       (''Seal'', [10, 11, 12, 13, 14])] (import_database_parser (5::nat))
     = Inr (\<lparr>train = [(''Orca'', [10, 16, 12, 14, 11, 17, 13, 18, 20])],
             validate = [(''Orca'', [19, 21])], test = [(''Orca'', [15])]\<rparr>,
            \<lparr>np_random_seed = 251, random_state = 10875297086\<rparr>)
   \<and> split_stage (\<lambda>g n. (g mod n, g * 7 + 3)) train_percentage_default validate_percentage_default
      [(''Orca'', [10, 11, 12, 13, 14, 15, 16, 17, 18, 19, 20, 21::nat]),
       (''Seal'', [10, 11, 12, 13, 14])] (import_database_parser (6::nat))
     = Inr (\<lparr>train = [(''Orca'', [20, 17, 15, 12, 14, 10, 13, 19, 21])],
             validate = [(''Orca'', [18, 11])], test = [(''Orca'', [16])]\<rparr>,
            \<lparr>np_random_seed = 251, random_state = 12852623829\<rparr>)
   \<and> np_random_seed (import_database_parser (5::nat)) = 251
   \<and> np_random_seed (import_database_parser (6::nat)) = 251"
  by (simp add: split_stage_def import_database_parser_def split_samples_example
      split_samples_example_6 del: split_samples.simps)

section \<open>One-hot encoding of labels\<close>










section \<open>Labels of the index\<close>














section \<open>The example of a segment\<close>

lemma collect_broadcast_rows:
  "\<forall>row \<in> set rows. length row = n \<Longrightarrow> collect (map (broadcast_to n) rows) = Inr rows"
  by (induction rows) (simp_all add: broadcast_to_def)

lemma assign_example_two:
  "2 \<le> length spectrogram \<Longrightarrow> assign_example f b spectrogram = Inl ValueError"
  by (cases spectrogram; cases "tl spectrogram") (auto simp: assign_example_def split: list.splits)

lemmas extract_eval = extract_segment_features_def read_segment_def py_index_def
  py_int_of_string_def strip_def is_space_def is_digit_def digit_value_def
  waveform_to_mel_spectrogram_segments_def np_expand_dims_3_def assign_example_def
  broadcast_to_def frame_windows_def Let_def

text \<open>
  C7 as stated fails. With a window of 2 frames taken every 2 frames, a spectrogram of 4
  frames is framed into two windows. The extraction does not keep the first: assigning
  an array of two windows to the single example \<^verbatim>\<open>X[0, :, :, :]\<close> raises \<^verbatim>\<open>ValueError\<close>.
\<close>

theorem extract_two_windows_counterexample:
  "extract_segment_features
     \<lparr>sf_read = (\<lambda>path start frame_count. Inr ([3, 1, 4, 1 :: int], 16000)),
      ndim = (\<lambda>data. 1), np_mean_axis1 = (\<lambda>data. data), resample = (\<lambda>data a b. data),
      log_mel_spectrogram = (\<lambda>data. map (\<lambda>v. [v, v]) data), frame = frame_windows\<rparr>
     \<lparr>SAMPLE_RATE = 16000, NUM_FRAMES = 2, NUM_BANDS = 2,
      example_window_length = 2, example_hop_length = 2\<rparr>
     ''a.wav:0:4'' = Inl ValueError
   \<and> frame_windows [[3, 3], [1, 1], [4, 4], [1, 1 :: int]] 2 2
       = [[[3, 3], [1, 1]], [[4, 4], [1, 1]]]"
  by (simp add: extract_eval upt_rec)

text \<open>
  C7, amended. For a segment that is read, the extraction returns one example of the
  shape \<open>(NUM_FRAMES, NUM_BANDS, 1)\<close> when the framing step yields no window, and then the
  example is all zeros, or when it yields exactly one window of \<open>NUM_FRAMES\<close> rows and
  \<open>NUM_BANDS\<close> columns, and then the example is that window. When the framing step yields
  two or more windows, the extraction fails and returns no example.
\<close>

theorem extract_segment_features_cases:
  assumes "read_segment co segment = Inr (data, sample_rate)"
    and "waveform_to_mel_spectrogram_segments co mp data sample_rate = windows"
  shows "(windows = [] \<longrightarrow>
            extract_segment_features co mp segment
              = Inr [replicate (NUM_FRAMES mp) (replicate (NUM_BANDS mp) [0])])
       \<and> (\<forall>window. windows = [window] \<and> length window = NUM_FRAMES mp
              \<and> (\<forall>row \<in> set window. length row = NUM_BANDS mp) \<longrightarrow>
            extract_segment_features co mp segment = Inr [map (map (\<lambda>v. [v])) window])
       \<and> (2 \<le> length windows \<longrightarrow> extract_segment_features co mp segment = Inl ValueError)"
proof (intro conjI allI impI)
  assume "windows = []"
  then show "extract_segment_features co mp segment
              = Inr [replicate (NUM_FRAMES mp) (replicate (NUM_BANDS mp) [0])]"
    using assms by (simp add: extract_segment_features_def np_expand_dims_3_def)
next
  fix window
  assume w: "windows = [window] \<and> length window = NUM_FRAMES mp
              \<and> (\<forall>row \<in> set window. length row = NUM_BANDS mp)"
  let ?w = "map (map (\<lambda>v. [v])) window"
  have "\<forall>row \<in> set ?w. length row = NUM_BANDS mp" using w by simp
  then have "collect (map (broadcast_to (NUM_BANDS mp)) ?w) = Inr ?w"
    by (rule collect_broadcast_rows)
  moreover have "broadcast_to (NUM_FRAMES mp) ?w = Inr ?w"
    using w by (simp add: broadcast_to_def)
  ultimately have "assign_example (NUM_FRAMES mp) (NUM_BANDS mp) [?w] = Inr ?w"
    by (simp add: assign_example_def)
  then show "extract_segment_features co mp segment = Inr [map (map (\<lambda>v. [v])) window]"
    using assms w by (simp add: extract_segment_features_def np_expand_dims_3_def)
next
  assume two: "2 \<le> length windows"
  then have "2 \<le> length (np_expand_dims_3 windows)" by (simp add: np_expand_dims_3_def)
  then have "assign_example (NUM_FRAMES mp) (NUM_BANDS mp) (np_expand_dims_3 windows) = Inl ValueError"
    by (rule assign_example_two)
  then show "extract_segment_features co mp segment = Inl ValueError"
    using assms two by (auto simp: extract_segment_features_def Let_def np_expand_dims_3_def)
qed

theorem extract_segment_features_cases_witness:
  "extract_segment_features
     \<lparr>sf_read = (\<lambda>path start frame_count. Inr ([3, 1, 4, 1 :: int], 16000)),
      ndim = (\<lambda>data. 1), np_mean_axis1 = (\<lambda>data. data), resample = (\<lambda>data a b. data),
      log_mel_spectrogram = (\<lambda>data. map (\<lambda>v. [v, v]) data), frame = frame_windows\<rparr>
     \<lparr>SAMPLE_RATE = 16000, NUM_FRAMES = 4, NUM_BANDS = 2,
      example_window_length = 4, example_hop_length = 4\<rparr>
     ''a.wav:0:4'' = Inr [[[[3], [3]], [[1], [1]], [[4], [4]], [[1], [1]]]]
   \<and> extract_segment_features
     \<lparr>sf_read = (\<lambda>path start frame_count. Inr ([3, 1, 4, 1 :: int], 16000)),
      ndim = (\<lambda>data. 1), np_mean_axis1 = (\<lambda>data. data), resample = (\<lambda>data a b. data),
      log_mel_spectrogram = (\<lambda>data. map (\<lambda>v. [v, v]) data), frame = frame_windows\<rparr>
     \<lparr>SAMPLE_RATE = 16000, NUM_FRAMES = 5, NUM_BANDS = 2,
      example_window_length = 5, example_hop_length = 5\<rparr>
     ''a.wav:0:4'' = Inr [[[[0], [0]], [[0], [0]], [[0], [0]], [[0], [0]], [[0], [0]]]]"
proof -
  let ?co = "\<lparr>sf_read = (\<lambda>path start frame_count. Inr ([3, 1, 4, 1 :: int], 16000)),
      ndim = (\<lambda>data. 1), np_mean_axis1 = (\<lambda>data. data), resample = (\<lambda>data a b. data),
      log_mel_spectrogram = (\<lambda>data. map (\<lambda>v. [v, v]) data), frame = frame_windows\<rparr>"
  let ?mp4 = "\<lparr>SAMPLE_RATE = 16000, NUM_FRAMES = 4, NUM_BANDS = 2,
      example_window_length = 4, example_hop_length = 4\<rparr>"
  let ?mp5 = "\<lparr>SAMPLE_RATE = 16000, NUM_FRAMES = 5, NUM_BANDS = 2,
      example_window_length = 5, example_hop_length = 5\<rparr>"
  have r: "read_segment ?co ''a.wav:0:4'' = Inr ([3, 1, 4, 1], 16000)"
    by (simp add: read_segment_def py_index_def py_int_of_string_def strip_def is_space_def
        is_digit_def digit_value_def)
  have w4: "waveform_to_mel_spectrogram_segments ?co ?mp4 [3, 1, 4, 1] 16000
      = [[[3, 3], [1, 1], [4, 4], [1, 1]]]"
    by (simp add: waveform_to_mel_spectrogram_segments_def frame_windows_def)
  have w5: "waveform_to_mel_spectrogram_segments ?co ?mp5 [3, 1, 4, 1] 16000 = []"
    by (simp add: waveform_to_mel_spectrogram_segments_def frame_windows_def)
  have "extract_segment_features ?co ?mp4 ''a.wav:0:4''
      = Inr [map (map (\<lambda>v. [v])) [[3, 3], [1, 1], [4, 4], [1, 1]]]"
    using extract_segment_features_cases [OF r w4] by simp
  moreover have "extract_segment_features ?co ?mp5 ''a.wav:0:4''
      = Inr [replicate (NUM_FRAMES ?mp5) (replicate (NUM_BANDS ?mp5) [0])]"
    using extract_segment_features_cases [OF r w5] by simp
  ultimately show ?thesis by (simp add: numeral_eq_Suc)
qed


end
